theory Spec2Isabelle
  imports Complex_Main
begin

section \<open>GeoIP enrichment of a table (geogsuite.py)\<close>

text \<open>
  A shallow embedding of \<^verbatim>\<open>src/geogsuite.py\<close>. Python strings are \<open>string\<close>; a
  \<open>char\<close> stands for one code point below 256. The libraries the script calls
  (\<^verbatim>\<open>ipaddress\<close>, \<^verbatim>\<open>geoip2\<close>, the CSV reader of \<^verbatim>\<open>pandas\<close>) are the environment:
  the address parser and the database readers are parameters of the model, and a
  data frame is the parsed table.
\<close>

subsection \<open>Python string primitives\<close>

definition is_space :: "char \<Rightarrow> bool" where
  \<comment> \<open>\<^verbatim>\<open>str.isspace\<close> on code points below 256\<close>
  "is_space c = ((of_char c :: nat) \<in> {9, 10, 11, 12, 13, 28, 29, 30, 31, 32, 133, 160})"

definition strip :: "string \<Rightarrow> string" where
  \<comment> \<open>\<^verbatim>\<open>s.strip()\<close>\<close>
  "strip s = rev (dropWhile is_space (rev (dropWhile is_space s)))"

definition lower_char :: "char \<Rightarrow> char" where
  "lower_char c =
     (let n = (of_char c :: nat)
      in if (65 \<le> n \<and> n \<le> 90) \<or> (192 \<le> n \<and> n \<le> 222 \<and> n \<noteq> 215)
         then char_of (n + 32) else c)"

definition lower :: "string \<Rightarrow> string" where
  \<comment> \<open>\<^verbatim>\<open>s.lower()\<close>\<close>
  "lower s = map lower_char s"

fun join :: "string \<Rightarrow> string list \<Rightarrow> string" where
  \<comment> \<open>\<^verbatim>\<open>sep.join(parts)\<close>\<close>
  "join sep [] = []"
| "join sep [p] = p"
| "join sep (p # q # ps) = p @ sep @ join sep (q # ps)"

fun split_on :: "char \<Rightarrow> string \<Rightarrow> string list" where
  \<comment> \<open>\<^verbatim>\<open>s.split(c)\<close> for a one-character separator\<close>
  "split_on c [] = [[]]"
| "split_on c (x # xs) =
     (if x = c then [] # split_on c xs
      else (case split_on c xs of [] \<Rightarrow> [[x]] | p # ps \<Rightarrow> (x # p) # ps))"

definition digit_char :: "nat \<Rightarrow> char" where
  "digit_char d = ''0123456789'' ! (d mod 10)"

fun str_nat :: "nat \<Rightarrow> string" where
  \<comment> \<open>\<^verbatim>\<open>str(n)\<close> for a non-negative integer\<close>
  "str_nat n = (if n < 10 then [digit_char n] else str_nat (n div 10) @ [digit_char n])"

declare str_nat.simps [simp del]

definition str_int :: "int \<Rightarrow> string" where
  \<comment> \<open>\<^verbatim>\<open>str(i)\<close>\<close>
  "str_int i = (if i < 0 then CHR ''-'' # str_nat (nat (- i)) else str_nat (nat i))"

fun digits_fixed :: "nat \<Rightarrow> nat \<Rightarrow> string" where
  \<comment> \<open>the last \<open>k\<close> decimal digits of \<open>n\<close>, zero padded\<close>
  "digits_fixed 0 n = []"
| "digits_fixed (Suc k) n = digits_fixed k (n div 10) @ [digit_char n]"

definition round_half_even :: "rat \<Rightarrow> int" where
  "round_half_even y =
     (let q = \<lfloor>y\<rfloor>; f = y - of_int q
      in if f < 1 / 2 then q else if 1 / 2 < f then q + 1
         else if even q then q else q + 1)"

definition fmt6_finite :: "rat \<Rightarrow> string" where
  \<comment> \<open>\<^verbatim>\<open>f"{x:.6f}"\<close> for a finite number: correctly rounded, ties to even, sign kept\<close>
  "fmt6_finite x =
     (let n = nat (round_half_even (\<bar>x\<bar> * 1000000))
      in (if x < 0 then ''-'' else []) @ str_nat (n div 1000000) @ ''.'' @
         digits_fixed 6 n)"

text \<open>
  A Python \<^verbatim>\<open>float\<close>: a finite value (a rational number; an \<^verbatim>\<open>int\<close> that passes
  \<^verbatim>\<open>isinstance(lat, (float, int))\<close> is one too), the negative zero, \<^verbatim>\<open>nan\<close> or an infinity.
\<close>

datatype float64 = Finite rat | NegZero | NaN | PosInf | NegInf

definition fmt6 :: "float64 \<Rightarrow> string" where
  \<comment> \<open>\<^verbatim>\<open>f"{x:.6f}"\<close>\<close>
  "fmt6 x =
     (case x of
        Finite q \<Rightarrow> fmt6_finite q
      | NegZero \<Rightarrow> ''-0.000000''
      | NaN \<Rightarrow> ''nan''
      | PosInf \<Rightarrow> ''inf''
      | NegInf \<Rightarrow> ''-inf'')"

subsection \<open>format_geoip\<close>

text \<open>
  The seven values that \<^verbatim>\<open>lookup\<close> returns and \<^verbatim>\<open>format_geoip\<close> takes. A coordinate
  is a float, the number is a Python \<^verbatim>\<open>int\<close>.
\<close>

record lookup_result =
  country_iso :: "string option"
  region :: "string option"
  city :: "string option"
  lat :: "float64 option"
  lon :: "float64 option"
  asn :: "int option"
  org :: "string option"

definition or_empty :: "string option \<Rightarrow> string" where
  \<comment> \<open>\<^verbatim>\<open>x or ""\<close>\<close>
  "or_empty x = (case x of None \<Rightarrow> [] | Some s \<Rightarrow> s)"

definition fmt_coord :: "float64 option \<Rightarrow> string" where
  \<comment> \<open>\<^verbatim>\<open>f"{lat:.6f}" if isinstance(lat, (float, int)) else ""\<close>\<close>
  "fmt_coord x = (case x of None \<Rightarrow> [] | Some v \<Rightarrow> fmt6 v)"

definition fmt_asn :: "int option \<Rightarrow> string" where
  \<comment> \<open>\<^verbatim>\<open>f"AS{asn}" if isinstance(asn, int) else ""\<close>\<close>
  "fmt_asn x = (case x of None \<Rightarrow> [] | Some n \<Rightarrow> ''AS'' @ str_int n)"

definition parts :: "lookup_result \<Rightarrow> string list" where
  "parts r =
     [or_empty (country_iso r), or_empty (region r), or_empty (city r),
      fmt_coord (lat r), fmt_coord (lon r), fmt_asn (asn r), or_empty (org r)]"

definition format_geoip :: "lookup_result \<Rightarrow> string" where
  "format_geoip r = join ''|'' (parts r)"

subsection \<open>The environment: address parser and database readers\<close>

text \<open>
  \<^verbatim>\<open>ipaddress.ip_address\<close> returns an address object or raises \<^verbatim>\<open>ValueError\<close>
  (\<open>None\<close>); the script reads five flags of the object. A \<^verbatim>\<open>geoip2\<close> reader is its
  two query methods, each returning a response or raising (\<open>None\<close>). Opening a reader
  on a path can fail as well. The CSV reader infers the type of a column from the rows
  it reads together: \<open>typed_row E batch r\<close> is the cells that \<^verbatim>\<open>pd.read_csv\<close>, with the
  options of the run, gives the text row \<open>r\<close> when it reads the rows \<open>batch\<close> together, so
  the same text can be read as a string in the whole table and as a number in a batch.
\<close>

datatype cell = CStr string | CNaN | CInt int

record ipaddr =
  is_private :: bool
  is_loopback :: bool
  is_reserved :: bool
  is_link_local :: bool
  is_multicast :: bool

record named_rec =
  rec_name :: "string option"
  rec_iso_code :: "string option"

record location_rec =
  latitude :: "float64 option"
  longitude :: "float64 option"

record city_resp =
  resp_country :: "named_rec option"
  resp_subdivisions :: "named_rec list"
  resp_city :: "named_rec option"
  resp_location :: "location_rec option"

record asn_resp =
  autonomous_system_number :: "int option"
  autonomous_system_organization :: "string option"

record reader =
  city_m :: "string \<Rightarrow> city_resp option"
  asn_m :: "string \<Rightarrow> asn_resp option"

record env =
  ip_address :: "string \<Rightarrow> ipaddr option"
  Reader :: "string \<Rightarrow> reader option"
  typed_row :: "string list list \<Rightarrow> string list \<Rightarrow> cell list"

text \<open>What the run does to the two database handles, in order.\<close>

datatype handle = CityDb | AsnDb

datatype event = Acquire handle | Query handle string | Release handle

subsection \<open>is_public_ip and lookup\<close>

definition is_public_ip :: "env \<Rightarrow> string \<Rightarrow> bool" where
  "is_public_ip E s =
     (case ip_address E (strip s) of
        None \<Rightarrow> False
      | Some ip \<Rightarrow> \<not> (is_private ip \<or> is_loopback ip \<or> is_reserved ip \<or>
                      is_link_local ip \<or> is_multicast ip))"

definition py_or :: "string option \<Rightarrow> string option \<Rightarrow> string option" where
  \<comment> \<open>\<^verbatim>\<open>a or b\<close> on optional strings: \<^verbatim>\<open>None\<close> and \<^verbatim>\<open>""\<close> are false\<close>
  "py_or a b = (case a of Some (x # xs) \<Rightarrow> a | _ \<Rightarrow> b)"

definition truthy :: "string option \<Rightarrow> bool" where
  "truthy a = (case a of Some (x # xs) \<Rightarrow> True | _ \<Rightarrow> False)"

definition region_of :: "city_resp \<Rightarrow> string option" where
  \<comment> \<open>the most specific subdivision is the last one\<close>
  "region_of resp =
     (case resp_subdivisions resp of
        [] \<Rightarrow> None
      | _ \<Rightarrow> py_or (rec_name (last (resp_subdivisions resp)))
                  (rec_iso_code (last (resp_subdivisions resp))))"

definition city_fields ::
  "reader \<Rightarrow> string \<Rightarrow> string option \<times> string option \<times> string option \<times> float64 option \<times> float64 option"
where
  \<comment> \<open>the first \<^verbatim>\<open>try\<close> block of \<^verbatim>\<open>lookup\<close>\<close>
  "city_fields city_reader ip =
     (case city_m city_reader ip of
        None \<Rightarrow> (None, None, None, None, None)
      | Some resp \<Rightarrow>
          (case resp_country resp of None \<Rightarrow> None | Some k \<Rightarrow> rec_iso_code k,
           region_of resp,
           case resp_city resp of None \<Rightarrow> None | Some k \<Rightarrow> rec_name k,
           case resp_location resp of None \<Rightarrow> None | Some l \<Rightarrow> latitude l,
           case resp_location resp of None \<Rightarrow> None | Some l \<Rightarrow> longitude l))"

definition asn_fields :: "reader option \<Rightarrow> string \<Rightarrow> (int option \<times> string option) \<times> event list" where
  \<comment> \<open>the second \<^verbatim>\<open>try\<close> block of \<^verbatim>\<open>lookup\<close>, under \<^verbatim>\<open>if asn_reader is not None\<close>\<close>
  "asn_fields asn_reader ip =
     (case asn_reader of
        None \<Rightarrow> ((None, None), [])
      | Some ar \<Rightarrow>
          (case asn_m ar ip of
             None \<Rightarrow> ((None, None), [Query AsnDb ip])
           | Some resp \<Rightarrow>
               ((autonomous_system_number resp, autonomous_system_organization resp),
                [Query AsnDb ip])))"

definition lookup :: "reader \<Rightarrow> reader option \<Rightarrow> string \<Rightarrow> lookup_result \<times> event list" where
  "lookup city_reader asn_reader ip =
     (let (c, r, ci, la, lo) = city_fields city_reader ip;
          ((an, og), ev) = asn_fields asn_reader ip
      in (\<lparr>country_iso = c, region = r, city = ci, lat = la, lon = lo, asn = an, org = og\<rparr>,
          Query CityDb ip # ev))"

subsection \<open>Data frames and the per-row computation\<close>

text \<open>
  A cell of a parsed table is a string, a missing value or a number; floats in other
  columns are left out. A data frame is its column names and its rows, each row as
  long as the schema, with column names unique (\<open>wf_df\<close>).
\<close>

record dataframe =
  columns :: "string list"
  rows :: "cell list list"

definition wf_df :: "dataframe \<Rightarrow> bool" where
  "wf_df df = (distinct (columns df) \<and> list_all (\<lambda>r. length r = length (columns df)) (rows df))"

definition str_of_cell :: "cell \<Rightarrow> string" where
  \<comment> \<open>\<^verbatim>\<open>str(v)\<close>\<close>
  "str_of_cell v = (case v of CStr s \<Rightarrow> s | CNaN \<Rightarrow> ''nan'' | CInt i \<Rightarrow> str_int i)"

definition astype_str :: "cell \<Rightarrow> cell" where
  \<comment> \<open>one value of \<^verbatim>\<open>series.astype(str)\<close>\<close>
  "astype_str v = CStr (str_of_cell v)"

definition compute :: "env \<Rightarrow> reader \<Rightarrow> reader option \<Rightarrow> cell \<Rightarrow> string \<times> event list" where
  "compute E city_reader asn_reader ip_val =
     (case ip_val of
        CStr v \<Rightarrow>
          (let s = strip v
           in if s = [] then ([], [])
              else if \<not> is_public_ip E s then ([], [])
              else (let (res, ev) = lookup city_reader asn_reader s
                    in (format_geoip res, ev)))
      | _ \<Rightarrow> ([], []))"

fun apply_compute ::
  "env \<Rightarrow> reader \<Rightarrow> reader option \<Rightarrow> cell list \<Rightarrow> string list \<times> event list"
where
  \<comment> \<open>\<^verbatim>\<open>series.apply(compute)\<close>, in row order\<close>
  "apply_compute E cr ar [] = ([], [])"
| "apply_compute E cr ar (v # vs) =
     (let (g, ev) = compute E cr ar v;
          (gs, evs) = apply_compute E cr ar vs
      in (g # gs, ev @ evs))"

subsection \<open>enrich_dataframe\<close>

datatype error =
  SystemExit string
| KeyError string
| ValueError string
| ReaderError string
| ParserError

definition index_of :: "'a list \<Rightarrow> 'a \<Rightarrow> nat" where
  \<comment> \<open>\<^verbatim>\<open>xs.index(x)\<close> for an element of the list\<close>
  "index_of xs x = length (takeWhile (\<lambda>y. y \<noteq> x) xs)"

definition insert_at :: "nat \<Rightarrow> 'a \<Rightarrow> 'a list \<Rightarrow> 'a list" where
  "insert_at i v xs = take i xs @ [v] @ drop i xs"

definition df_insert :: "dataframe \<Rightarrow> nat \<Rightarrow> string \<Rightarrow> cell list \<Rightarrow> error + dataframe" where
  \<comment> \<open>\<^verbatim>\<open>df.insert(loc, column, value)\<close>: pandas refuses a column name that exists\<close>
  "df_insert df loc column vals =
     (if column \<in> set (columns df)
      then Inl (ValueError (''cannot insert '' @ column @ '', already exists''))
      else Inr \<lparr>columns = insert_at loc column (columns df),
                rows = map (\<lambda>(r, v). insert_at loc v r) (zip (rows df) vals)\<rparr>)"

definition select_cols :: "dataframe \<Rightarrow> string list \<Rightarrow> dataframe" where
  \<comment> \<open>\<^verbatim>\<open>df[names]\<close> for names of the frame\<close>
  "select_cols df names =
     \<lparr>columns = names,
      rows = map (\<lambda>r. map (\<lambda>c. r ! index_of (columns df) c) names) (rows df)\<rparr>"

definition enrich_body ::
  "env \<Rightarrow> reader \<Rightarrow> reader option \<Rightarrow> dataframe \<Rightarrow> string \<Rightarrow> string \<Rightarrow>
   (error + dataframe) \<times> event list"
where
  \<comment> \<open>the \<^verbatim>\<open>try\<close> block of \<^verbatim>\<open>enrich_dataframe\<close>\<close>
  "enrich_body E city_reader asn_reader df ip_col geoip_col =
     (if ip_col \<notin> set (columns df) then (Inl (KeyError ip_col), [])
      else
        (let (geo_series, ev) =
               apply_compute E city_reader asn_reader
                 (map (\<lambda>r. astype_str (r ! index_of (columns df) ip_col)) (rows df));
             cols = columns df;
             ip_idx = index_of cols ip_col;
             new_cols = take (ip_idx + 1) cols @ [geoip_col] @ drop (ip_idx + 1) cols
         in (case df_insert df (ip_idx + 1) geoip_col (map CStr geo_series) of
               Inl e \<Rightarrow> (Inl e, ev)
             | Inr df_out \<Rightarrow> (Inr (select_cols df_out new_cols), ev))))"

definition open_asn :: "env \<Rightarrow> string option \<Rightarrow> reader option option" where
  \<comment> \<open>\<^verbatim>\<open>Reader(asn_db) if asn_db else None\<close>; the outer \<open>None\<close> is a failed open\<close>
  "open_asn E asn_db =
     (if truthy asn_db then map_option Some (Reader E (the asn_db)) else Some None)"

definition enrich_dataframe ::
  "env \<Rightarrow> dataframe \<Rightarrow> string \<Rightarrow> string \<Rightarrow> string option \<Rightarrow> string \<Rightarrow>
   (error + dataframe) \<times> event list"
where
  "enrich_dataframe E df ip_col city_db asn_db geoip_col =
     (case Reader E city_db of
        None \<Rightarrow> (Inl (ReaderError city_db), [])
      | Some city_reader \<Rightarrow>
          (case open_asn E asn_db of
             None \<Rightarrow> (Inl (ReaderError (the asn_db)), [Acquire CityDb])
           | Some asn_reader \<Rightarrow>
               (let (res, ev) = enrich_body E city_reader asn_reader df ip_col geoip_col
                in (res,
                    [Acquire CityDb] @ (if asn_reader \<noteq> None then [Acquire AsnDb] else []) @
                    ev @
                    [Release CityDb] @ (if asn_reader \<noteq> None then [Release AsnDb] else [])))))"

subsection \<open>autodetect_ip_col\<close>

definition common :: "string list" where
  "common = [''ip'', ''ip_address'', ''client_ip'', ''source_ip'', ''src_ip'', ''dst_ip'',
             ''remote_ip'']"

fun first_common :: "string list \<Rightarrow> string option" where
  \<comment> \<open>the first loop: the first column whose lowered name is a common one\<close>
  "first_common [] = None"
| "first_common (c # cs) = (if lower c \<in> set common then Some c else first_common cs)"

definition df_head :: "nat \<Rightarrow> dataframe \<Rightarrow> dataframe" where
  "df_head n df = df\<lparr>rows := take n (rows df)\<rparr>"

definition column_vals :: "dataframe \<Rightarrow> string \<Rightarrow> string list" where
  \<comment> \<open>\<^verbatim>\<open>sample[c].dropna().astype(str).head(200).tolist()\<close>\<close>
  "column_vals sample c =
     take 200 (map str_of_cell
       (filter (\<lambda>v. v \<noteq> CNaN) (map (\<lambda>r. r ! index_of (columns sample) c) (rows sample))))"

fun count_hits :: "env \<Rightarrow> string list \<Rightarrow> nat \<Rightarrow> nat \<Rightarrow> nat \<times> nat" where
  \<comment> \<open>the inner loop, returning \<open>(hits, tot)\<close>\<close>
  "count_hits E [] hits tot = (hits, tot)"
| "count_hits E (v # vs) hits tot =
     count_hits E vs (if ip_address E (strip v) \<noteq> None then hits + 1 else hits) (tot + 1)"

fun first_ip_like :: "env \<Rightarrow> dataframe \<Rightarrow> string list \<Rightarrow> string option" where
  \<comment> \<open>the second loop; \<^verbatim>\<open>hits / tot >= 0.5\<close> is exact for counts up to 200\<close>
  "first_ip_like E sample [] = None"
| "first_ip_like E sample (c # cs) =
     (let vals = column_vals sample c
      in if vals = [] then first_ip_like E sample cs
         else (let (hits, tot) = count_hits E vals 0 0
               in if tot \<noteq> 0 \<and> tot \<le> 2 * hits then Some c
                  else first_ip_like E sample cs))"

definition autodetect_ip_col :: "env \<Rightarrow> dataframe \<Rightarrow> string option" where
  "autodetect_ip_col E df =
     (case first_common (columns df) of
        Some c \<Rightarrow> Some c
      | None \<Rightarrow> first_ip_like E (df_head 1000 df) (columns (df_head 1000 df)))"

subsection \<open>process_all\<close>

text \<open>
  The parsed arguments. The input file is its header, its rows of text and an optional
  data row at which the parser raises. The output file is absent or a list of lines; a
  line holds the cells written, and equal cells are written as equal text.
\<close>

record args =
  arg_city_db :: string
  arg_asn_db :: "string option"
  arg_ip_col :: "string option"
  arg_geoip_col :: string
  arg_chunksize :: int
  arg_keep_invalid :: bool
  arg_invalid_marker :: string

record csv_file =
  csv_header :: "string list"
  csv_rows :: "string list list"
  bad_row :: "nat option"

datatype line = Header "string list" | Row "cell list"

record run =
  outcome :: "error option"
  out_file :: "line list option"
  trace :: "event list"

definition parse_rows :: "env \<Rightarrow> string list \<Rightarrow> string list list \<Rightarrow> dataframe" where
  \<comment> \<open>the frame of the rows that one read takes together\<close>
  "parse_rows E hdr batch = \<lparr>columns = hdr, rows = map (typed_row E batch) batch\<rparr>"

definition table :: "env \<Rightarrow> csv_file \<Rightarrow> dataframe" where
  \<comment> \<open>the frame of the whole file\<close>
  "table E f = parse_rows E (csv_header f) (csv_rows f)"

definition read_csv :: "env \<Rightarrow> csv_file \<Rightarrow> error + dataframe" where
  \<comment> \<open>\<^verbatim>\<open>pd.read_csv(path)\<close>\<close>
  "read_csv E f =
     (case bad_row f of
        None \<Rightarrow> Inr (table E f)
      | Some k \<Rightarrow> if k < length (csv_rows f) then Inl ParserError else Inr (table E f))"

function chunks_of :: "nat \<Rightarrow> 'a list \<Rightarrow> 'a list list" where
  "chunks_of n xs = (if n = 0 \<or> xs = [] then [] else take n xs # chunks_of n (drop n xs))"
  by pat_completeness auto
termination
  by (relation "measure (\<lambda>(n, xs). length xs)") auto

declare chunks_of.simps [simp del]

definition batches :: "nat \<Rightarrow> 'a list \<Rightarrow> 'a list list" where
  \<comment> \<open>the rows of each batch; a file without rows is read as one empty batch\<close>
  "batches n xs = (if xs = [] then [[]] else chunks_of n xs)"

definition df_chunks :: "env \<Rightarrow> nat \<Rightarrow> csv_file \<Rightarrow> dataframe list" where
  \<comment> \<open>the frames of the batches, each typed from its own rows\<close>
  "df_chunks E n f = map (parse_rows E (csv_header f)) (batches n (csv_rows f))"

definition read_csv_chunks :: "env \<Rightarrow> nat \<Rightarrow> csv_file \<Rightarrow> (error + dataframe) list" where
  \<comment> \<open>what iterating \<^verbatim>\<open>pd.read_csv(path, chunksize=n)\<close> yields: the batches before the
      one with the bad row, then the error\<close>
  "read_csv_chunks E n f =
     (case read_csv E f of
        Inr df \<Rightarrow> map Inr (df_chunks E n f)
      | Inl e \<Rightarrow> map Inr (take (the (bad_row f) div n) (df_chunks E n f)) @ [Inl e])"

definition to_csv :: "dataframe \<Rightarrow> line list option \<Rightarrow> bool \<Rightarrow> line list option" where
  \<comment> \<open>\<^verbatim>\<open>to_csv(out_path, mode="w" if first else "a", header=first)\<close>\<close>
  "to_csv df file first =
     (if first then Some (Header (columns df) # map Row (rows df))
      else Some ((case file of None \<Rightarrow> [] | Some ls \<Rightarrow> ls) @ map Row (rows df)))"

definition failed :: "error \<Rightarrow> line list option \<Rightarrow> event list \<Rightarrow> run" where
  "failed e file ev = \<lparr>outcome = Some e, out_file = file, trace = ev\<rparr>"

definition no_ip_col :: error where
  "no_ip_col = SystemExit ''Failed to auto-detect IP column. Specify --ip-col.''"

definition chunk_step ::
  "env \<Rightarrow> args \<Rightarrow> error + dataframe \<Rightarrow> bool \<Rightarrow> string option \<Rightarrow> line list option \<Rightarrow>
   run + (string option \<times> line list option \<times> event list)"
where
  \<comment> \<open>one turn of \<^verbatim>\<open>for chunk in reader\<close>: the run ends (\<open>Inl\<close>), or the loop goes on with
      the new \<open>detected_ip\<close> and file, having made the events\<close>
  "chunk_step E a item first detected_ip file =
     (case item of
        Inl e \<Rightarrow> Inl (failed e file [])
      | Inr chunk \<Rightarrow>
          (let detected_ip' =
                 (if truthy (arg_ip_col a) then detected_ip
                  else py_or detected_ip (autodetect_ip_col E chunk));
               ip_col = (if truthy (arg_ip_col a) then arg_ip_col a else detected_ip')
           in if \<not> truthy ip_col then Inl (failed no_ip_col file [])
              else
                (case enrich_dataframe E chunk (the ip_col) (arg_city_db a) (arg_asn_db a)
                        (arg_geoip_col a) of
                   (Inl e, ev) \<Rightarrow> Inl (failed e file ev)
                 | (Inr enriched, ev) \<Rightarrow>
                     Inr (detected_ip', to_csv enriched file first, ev))))"

fun chunk_loop ::
  "env \<Rightarrow> args \<Rightarrow> (error + dataframe) list \<Rightarrow> bool \<Rightarrow> string option \<Rightarrow> line list option \<Rightarrow> run"
where
  \<comment> \<open>the loop, with its variables \<open>first\<close>, \<open>detected_ip\<close> and the file\<close>
  "chunk_loop E a [] first detected_ip file =
     \<lparr>outcome = None, out_file = file, trace = []\<rparr>"
| "chunk_loop E a (item # items) first detected_ip file =
     (case chunk_step E a item first detected_ip file of
        Inl r \<Rightarrow> r
      | Inr (detected_ip', file', ev) \<Rightarrow>
          (let r = chunk_loop E a items False detected_ip' file'
           in r\<lparr>trace := ev @ trace r\<rparr>))"

definition process_all :: "env \<Rightarrow> args \<Rightarrow> csv_file \<Rightarrow> run" where
  "process_all E a f =
     (if 0 < arg_chunksize a
      then chunk_loop E a (read_csv_chunks E (nat (arg_chunksize a)) f) True None None
      else
        (case read_csv E f of
           Inl e \<Rightarrow> failed e None []
         | Inr df \<Rightarrow>
             (let ip_col = py_or (arg_ip_col a) (autodetect_ip_col E df)
              in if \<not> truthy ip_col then failed no_ip_col None []
                 else
                   (case enrich_dataframe E df (the ip_col) (arg_city_db a) (arg_asn_db a)
                           (arg_geoip_col a) of
                      (Inl e, ev) \<Rightarrow> failed e None ev
                    | (Inr out_df, ev) \<Rightarrow>
                        \<lparr>outcome = None, out_file = to_csv out_df None True, trace = ev\<rparr>))))"

subsection \<open>Observers used to state the properties\<close>

text \<open>The shape of an encoded field: digits, six decimals, bars inside the text fields.\<close>

definition is_digit :: "char \<Rightarrow> bool" where
  "is_digit c = (48 \<le> (of_char c :: nat) \<and> (of_char c :: nat) \<le> 57)"

definition six_decimals :: "string \<Rightarrow> bool" where
  \<comment> \<open>one dot, followed by exactly six digits\<close>
  "six_decimals s =
     (case split_on CHR ''.'' s of
        [p, ds] \<Rightarrow> length ds = 6 \<and> list_all is_digit ds
      | _ \<Rightarrow> False)"

definition is_finite :: "float64 \<Rightarrow> bool" where
  "is_finite x = (case x of Finite q \<Rightarrow> True | NegZero \<Rightarrow> True | _ \<Rightarrow> False)"

definition count_bar :: "string \<Rightarrow> nat" where
  "count_bar s = length (filter (\<lambda>x. x = CHR ''|'') s)"

definition bars :: "lookup_result \<Rightarrow> nat" where
  \<comment> \<open>the bars inside the four text fields of a result\<close>
  "bars r = count_bar (or_empty (country_iso r)) + count_bar (or_empty (region r)) +
            count_bar (or_empty (city r)) + count_bar (or_empty (org r))"

text \<open>
  The three classes of the specification's classifier, in its words: trim, then the
  empty string and every unparsable string are invalid, a parsed address in a private,
  loopback, reserved, link-local or multicast range is non-routable, and every other
  parsed address is public.
\<close>

datatype ip_class = Invalid | ValidPublic | ValidNonRoutable

definition non_routable :: "ipaddr \<Rightarrow> bool" where
  "non_routable ip =
     (is_private ip \<or> is_loopback ip \<or> is_reserved ip \<or> is_link_local ip \<or> is_multicast ip)"

definition classify :: "env \<Rightarrow> string \<Rightarrow> ip_class" where
  "classify E s =
     (if strip s = [] then Invalid
      else (case ip_address E (strip s) of
              None \<Rightarrow> Invalid
            | Some ip \<Rightarrow> if non_routable ip then ValidNonRoutable else ValidPublic))"

text \<open>The new schema, the new cell of a row, and what \<^verbatim>\<open>enrich_dataframe\<close> makes of a schema.\<close>

definition new_cols :: "string list \<Rightarrow> string \<Rightarrow> string \<Rightarrow> string list" where
  \<comment> \<open>the local \<^verbatim>\<open>new_cols\<close> of \<^verbatim>\<open>enrich_dataframe\<close>\<close>
  "new_cols cols ip_col geoip_col =
     take (Suc (index_of cols ip_col)) cols @ geoip_col # drop (Suc (index_of cols ip_col)) cols"

definition geo_cell :: "env \<Rightarrow> reader \<Rightarrow> reader option \<Rightarrow> cell \<Rightarrow> cell" where
  \<comment> \<open>the value of the new column for a row whose address cell is \<open>v\<close>\<close>
  "geo_cell E cr ar v = CStr (fst (compute E cr ar (astype_str v)))"

definition enrich_row ::
  "env \<Rightarrow> reader \<Rightarrow> reader option \<Rightarrow> string list \<Rightarrow> string \<Rightarrow> string \<Rightarrow> cell list \<Rightarrow> cell list"
where
  \<comment> \<open>the output row: the columns \<^verbatim>\<open>new_cols\<close> selected from the row after the insertion\<close>
  "enrich_row E cr ar cols c g r =
     map (\<lambda>x. insert_at (Suc (index_of cols c)) (geo_cell E cr ar (r ! index_of cols c)) r !
               index_of (insert_at (Suc (index_of cols c)) g cols) x)
         (new_cols cols c g)"

definition enrich_result ::
  "env \<Rightarrow> string list \<Rightarrow> string \<Rightarrow> string \<Rightarrow> string option \<Rightarrow> string \<Rightarrow>
   error + (string list \<times> (cell list \<Rightarrow> cell list))"
where
  \<comment> \<open>the error of \<^verbatim>\<open>enrich_dataframe\<close> on a schema, or the output schema and the row function\<close>
  "enrich_result E cols c cdb adb g =
     (case Reader E cdb of
        None \<Rightarrow> Inl (ReaderError cdb)
      | Some cr \<Rightarrow>
          (case open_asn E adb of
             None \<Rightarrow> Inl (ReaderError (the adb))
           | Some ar \<Rightarrow>
               if c \<notin> set cols then Inl (KeyError c)
               else if g \<in> set cols
               then Inl (ValueError (''cannot insert '' @ g @ '', already exists''))
               else Inr (new_cols cols c g, enrich_row E cr ar cols c g)))"

definition final ::
  "env \<Rightarrow> args \<Rightarrow> string list \<Rightarrow> string \<Rightarrow> cell list list \<Rightarrow> error option \<times> line list option"
where
  \<comment> \<open>how a run over rows \<open>rs\<close> with the column fixed ends and what it writes\<close>
  "final E a cols c rs =
     (case enrich_result E cols c (arg_city_db a) (arg_asn_db a) (arg_geoip_col a) of
        Inl e \<Rightarrow> (Some e, None)
      | Inr (nc, fr) \<Rightarrow> (None, Some (Header nc # map Row (map fr rs))))"

text \<open>The two phases of auto-detection, as predicates on a column name.\<close>

definition name_match :: "string \<Rightarrow> bool" where
  "name_match c = (lower c \<in> set common)"

definition sampled_values :: "dataframe \<Rightarrow> string \<Rightarrow> cell list" where
  \<comment> \<open>the first 200 non-null values of the column among the first 1000 rows\<close>
  "sampled_values df c =
     take 200 (filter (\<lambda>v. v \<noteq> CNaN)
       (map (\<lambda>r. r ! index_of (columns df) c) (take 1000 (rows df))))"

definition parses :: "env \<Rightarrow> cell \<Rightarrow> bool" where
  "parses E v = (ip_address E (strip (str_of_cell v)) \<noteq> None)"

definition qualifies :: "env \<Rightarrow> dataframe \<Rightarrow> string \<Rightarrow> bool" where
  \<comment> \<open>there is a sampled value, and at least half of the sampled values parse\<close>
  "qualifies E df c =
     (sampled_values df c \<noteq> [] \<and>
      length (sampled_values df c) \<le> 2 * length (filter (parses E) (sampled_values df c)))"

text \<open>The column a batch is run with, and the chunk loop with that column fixed.\<close>

definition resolved :: "env \<Rightarrow> args \<Rightarrow> dataframe \<Rightarrow> string option \<Rightarrow> string option" where
  \<comment> \<open>the \<^verbatim>\<open>ip_col\<close> of one turn of the chunk loop, given \<^verbatim>\<open>detected_ip\<close>\<close>
  "resolved E a chunk d =
     (if truthy (arg_ip_col a) then arg_ip_col a else py_or d (autodetect_ip_col E chunk))"

definition keeps :: "args \<Rightarrow> string \<Rightarrow> string option \<Rightarrow> bool" where
  \<comment> \<open>every later turn of the loop resolves the column \<open>c\<close>\<close>
  "keeps a c d = (c \<noteq> [] \<and> (if truthy (arg_ip_col a) then arg_ip_col a = Some c else d = Some c))"

fun fixed_loop ::
  "env \<Rightarrow> args \<Rightarrow> string \<Rightarrow> (error + dataframe) list \<Rightarrow> bool \<Rightarrow> line list option \<Rightarrow> run"
where
  "fixed_loop E a c [] first fl = \<lparr>outcome = None, out_file = fl, trace = []\<rparr>"
| "fixed_loop E a c (Inl e # items) first fl = failed e fl []"
| "fixed_loop E a c (Inr chunk # items) first fl =
     (case enrich_dataframe E chunk c (arg_city_db a) (arg_asn_db a) (arg_geoip_col a) of
        (Inl e, ev) \<Rightarrow> failed e fl ev
      | (Inr enriched, ev) \<Rightarrow>
          (let r = fixed_loop E a c items False (to_csv enriched fl first)
           in r\<lparr>trace := ev @ trace r\<rparr>))"

definition first_batch :: "env \<Rightarrow> nat \<Rightarrow> csv_file \<Rightarrow> dataframe" where
  \<comment> \<open>the frame of the first batch of \<open>n\<close> rows\<close>
  "first_batch E n f = parse_rows E (csv_header f) (take n (csv_rows f))"

definition stable_types :: "env \<Rightarrow> nat \<Rightarrow> csv_file \<Rightarrow> bool" where
  \<comment> \<open>every row is typed in its batch of \<open>n\<close> rows as it is typed in the whole table\<close>
  "stable_types E n f =
     list_all (\<lambda>b. list_all (\<lambda>r. typed_row E b r = typed_row E (csv_rows f) r) b)
       (batches n (csv_rows f))"

definition same_ip_col :: "env \<Rightarrow> args \<Rightarrow> nat \<Rightarrow> csv_file \<Rightarrow> bool" where
  \<comment> \<open>the first batch of \<open>n\<close> rows resolves the column the whole table resolves\<close>
  "same_ip_col E a n f =
     (truthy (arg_ip_col a) \<or>
      autodetect_ip_col E (first_batch E n f) = autodetect_ip_col E (table E f))"

definition file_lines :: "line list option \<Rightarrow> line list" where
  "file_lines fl = (case fl of None \<Rightarrow> [] | Some ls \<Rightarrow> ls)"

text \<open>
  The discipline of the two handles, as a machine over the trace: its state says which
  handles are open; acquiring an open handle, and querying or releasing a closed one,
  are violations.
\<close>

fun handle_step :: "event \<Rightarrow> bool \<times> bool \<Rightarrow> (bool \<times> bool) option" where
  "handle_step (Acquire CityDb) (c, a) = (if c then None else Some (True, a))"
| "handle_step (Acquire AsnDb) (c, a) = (if a then None else Some (c, True))"
| "handle_step (Query CityDb ip) (c, a) = (if c then Some (c, a) else None)"
| "handle_step (Query AsnDb ip) (c, a) = (if a then Some (c, a) else None)"
| "handle_step (Release CityDb) (c, a) = (if c then Some (False, a) else None)"
| "handle_step (Release AsnDb) (c, a) = (if a then Some (c, False) else None)"

fun track :: "event list \<Rightarrow> bool \<times> bool \<Rightarrow> (bool \<times> bool) option" where
  "track [] s = Some s"
| "track (e # es) s = (case handle_step e s of None \<Rightarrow> None | Some s' \<Rightarrow> track es s')"

definition well_bracketed :: "event list \<Rightarrow> bool" where
  \<comment> \<open>no violation, and no handle is open at the end\<close>
  "well_bracketed t = (track t (False, False) = Some (False, False))"

definition acquisitions :: "handle \<Rightarrow> event list \<Rightarrow> nat" where
  "acquisitions h t = length (filter (\<lambda>e. e = Acquire h) t)"

definition opens_cleanly :: "env \<Rightarrow> args \<Rightarrow> bool" where
  \<comment> \<open>the ownership reader is absent or opens, unless the location reader fails first\<close>
  "opens_cleanly E a = (Reader E (arg_city_db a) = None \<or> open_asn E (arg_asn_db a) \<noteq> None)"

subsection \<open>A sample environment\<close>

text \<open>
  Two databases and an address parser that knows three addresses: the location database
  resolves \<^verbatim>\<open>8.8.8.8\<close> only, the ownership database resolves \<^verbatim>\<open>8.8.8.8\<close> and \<^verbatim>\<open>1.1.1.1\<close>,
  and \<^verbatim>\<open>10.0.0.1\<close> is private. Its CSV reader reads every cell as a string. The tables
  are small inputs for the examples.
\<close>

definition public_addr :: ipaddr where
  "public_addr = \<lparr>is_private = False, is_loopback = False, is_reserved = False,
                   is_link_local = False, is_multicast = False\<rparr>"

definition private_addr :: ipaddr where
  "private_addr = \<lparr>is_private = True, is_loopback = False, is_reserved = False,
                    is_link_local = False, is_multicast = False\<rparr>"

definition sample_ip_address :: "string \<Rightarrow> ipaddr option" where
  "sample_ip_address s =
     (if s = ''8.8.8.8'' \<or> s = ''1.1.1.1'' then Some public_addr
      else if s = ''10.0.0.1'' then Some private_addr
      else None)"

definition us_resp :: city_resp where
  "us_resp =
     \<lparr>resp_country = Some \<lparr>rec_name = Some ''United States'', rec_iso_code = Some ''US''\<rparr>,
      resp_subdivisions = [],
      resp_city = Some \<lparr>rec_name = None, rec_iso_code = None\<rparr>,
      resp_location = Some \<lparr>latitude = Some (Finite (37751 / 1000)),
                              longitude = Some (Finite (- (97822 / 1000)))\<rparr>\<rparr>"

definition us_result :: lookup_result where
  "us_result = \<lparr>country_iso = Some ''US'', region = None, city = None,
     lat = Some (Finite (37751 / 1000)), lon = Some (Finite (- (97822 / 1000))), asn = None,
     org = None\<rparr>"

definition city_rd :: reader where
  "city_rd = \<lparr>city_m = (\<lambda>ip. if ip = ''8.8.8.8'' then Some us_resp else None),
               asn_m = (\<lambda>ip. None)\<rparr>"

definition asn_rd :: reader where
  "asn_rd =
     \<lparr>city_m = (\<lambda>ip. None),
      asn_m = (\<lambda>ip.
        if ip = ''8.8.8.8''
        then Some \<lparr>autonomous_system_number = Some 15169,
                    autonomous_system_organization = Some ''Google LLC''\<rparr>
        else if ip = ''1.1.1.1''
        then Some \<lparr>autonomous_system_number = Some 13335,
                    autonomous_system_organization = Some ''Cloudflare''\<rparr>
        else None)\<rparr>"

definition sample_env :: env where
  "sample_env =
     \<lparr>ip_address = sample_ip_address,
      Reader = (\<lambda>p. if p = ''city.mmdb'' then Some city_rd
                     else if p = ''asn.mmdb'' then Some asn_rd else None),
      typed_row = (\<lambda>batch r. map CStr r)\<rparr>"

definition sample_args :: args where
  "sample_args =
     \<lparr>arg_city_db = ''city.mmdb'', arg_asn_db = None, arg_ip_col = None,
      arg_geoip_col = ''geoip'', arg_chunksize = 0, arg_keep_invalid = False,
      arg_invalid_marker = ''invalid_ip''\<rparr>"

definition clean :: "dataframe \<Rightarrow> csv_file" where
  \<comment> \<open>the file that holds the text of a frame, without a bad row\<close>
  "clean df = \<lparr>csv_header = columns df, csv_rows = map (map str_of_cell) (rows df),
              bad_row = None\<rparr>"

definition one_bad :: dataframe where
  "one_bad = \<lparr>columns = [''ip''], rows = [[CStr ''not-an-ip'']]\<rparr>"

definition four :: dataframe where
  "four = \<lparr>columns = [''ip''],
           rows = [[CStr ''8.8.8.8''], [CStr ''10.0.0.1''], [CStr ''not-an-ip''], [CStr []]]\<rparr>"

definition abc :: dataframe where
  "abc = \<lparr>columns = [''a'', ''ip'', ''b'', ''c''],
          rows = [[CStr ''x'', CStr ''10.0.0.1'', CStr ''y'', CStr ''z'']]\<rparr>"

definition taken :: dataframe where
  "taken = \<lparr>columns = [''ip'', ''geoip''], rows = [[CStr ''10.0.0.1'', CStr ''old'']]\<rparr>"

definition mixed :: dataframe where
  "mixed = \<lparr>columns = [''a'', ''b''],
            rows = [[CStr ''8.8.8.8'', CStr ''x''], [CStr ''y'', CStr ''10.0.0.1''],
                    [CStr ''z'', CStr ''10.0.0.1'']]\<rparr>"

definition words :: dataframe where
  "words = \<lparr>columns = [''a''], rows = [[CStr ''x'']]\<rparr>"

text \<open>
  A second environment, whose CSV reader reads a column as integers when every text of
  the column among the rows read together is a run of digits, and as strings otherwise;
  and a file whose first column holds \<^verbatim>\<open>007\<close> and \<^verbatim>\<open>abc\<close>.
\<close>

definition all_digits :: "string \<Rightarrow> bool" where
  "all_digits s = (s \<noteq> [] \<and> list_all is_digit s)"

definition int_of_digits :: "string \<Rightarrow> int" where
  "int_of_digits s = foldl (\<lambda>n c. 10 * n + (int (of_char c) - 48)) 0 s"

definition infer_row :: "string list list \<Rightarrow> string list \<Rightarrow> cell list" where
  "infer_row batch r =
     map (\<lambda>i. if list_all (\<lambda>x. i < length x \<and> all_digits (x ! i)) batch
               then CInt (int_of_digits (r ! i)) else CStr (r ! i))
         [0..<length r]"

definition typing_env :: env where
  "typing_env = sample_env\<lparr>typed_row := infer_row\<rparr>"

definition ids :: csv_file where
  "ids = \<lparr>csv_header = [''id'', ''ip''],
          csv_rows = [[''007'', ''10.0.0.1''], [''abc'', ''10.0.0.1'']],
          bad_row = None\<rparr>"

definition ip_args :: args where
  "ip_args = sample_args\<lparr>arg_ip_col := Some ''ip''\<rparr>"

section \<open>Properties\<close>

subsection \<open>Splitting and joining\<close>

lemma split_on_nonempty: "split_on c s \<noteq> []"
  by (induction s) (auto split: list.splits)

lemma split_on_length: "length (split_on c s) = Suc (length (filter (\<lambda>x. x = c) s))"
  by (induction s) (auto split: list.splits simp: split_on_nonempty)

lemma split_on_prefix:
  "c \<notin> set p \<Longrightarrow> split_on c (p @ c # rest) = p # split_on c rest"
  by (induction p) auto

lemma split_on_nosep: "c \<notin> set p \<Longrightarrow> split_on c p = [p]"
  by (induction p) auto

lemma split_join:
  "ps \<noteq> [] \<Longrightarrow> \<forall>p \<in> set ps. c \<notin> set p \<Longrightarrow> split_on c (join [c] ps) = ps"
  by (induction "[c]" ps rule: join.induct) (auto simp: split_on_nosep split_on_prefix)

lemma digit_char_is_digit: "is_digit (digit_char d)"
proof -
  have "digit_char d \<in> set ''0123456789''"
    unfolding digit_char_def by (rule nth_mem) simp
  then show ?thesis by (auto simp: is_digit_def)
qed

lemma str_nat_digits: "c \<in> set (str_nat n) \<Longrightarrow> is_digit c"
  by (induction n rule: str_nat.induct) (subst (asm) str_nat.simps, auto simp: digit_char_is_digit split: if_splits)

lemma digits_fixed_digits: "c \<in> set (digits_fixed k n) \<Longrightarrow> is_digit c"
  by (induction k n rule: digits_fixed.induct) (auto simp: digit_char_is_digit)

lemma digits_fixed_length: "length (digits_fixed k n) = k"
  by (induction k n rule: digits_fixed.induct) auto

lemma is_digit_not_bar: "is_digit c \<Longrightarrow> c \<noteq> CHR ''|''"
  by (auto simp: is_digit_def)

lemma is_digit_not_dot: "is_digit c \<Longrightarrow> c \<noteq> CHR ''.''"
  by (auto simp: is_digit_def)

lemma fmt6_finite_shape:
  "\<exists>p ds. fmt6_finite x = p @ CHR ''.'' # ds \<and> length ds = 6 \<and> (\<forall>c \<in> set ds. is_digit c) \<and>
          (\<forall>c \<in> set p. c = CHR ''-'' \<or> is_digit c)"
proof -
  define n where "n = nat (round_half_even (\<bar>x\<bar> * 1000000))"
  define p where "p = (if x < 0 then ''-'' else '''') @ str_nat (n div 1000000)"
  have "fmt6_finite x = p @ CHR ''.'' # digits_fixed 6 n"
    by (simp add: fmt6_finite_def Let_def n_def p_def)
  moreover have "\<forall>c \<in> set p. c = CHR ''-'' \<or> is_digit c"
    by (auto simp: p_def dest: str_nat_digits)
  ultimately show ?thesis
    using digits_fixed_length[of 6 n] digits_fixed_digits[of _ 6 n] by blast
qed

lemma six_decimals_fmt6_finite: "six_decimals (fmt6_finite x)"
proof -
  obtain p ds where e: "fmt6_finite x = p @ CHR ''.'' # ds" and l: "length ds = 6"
    and d: "\<forall>c \<in> set ds. is_digit c" and q: "\<forall>c \<in> set p. c = CHR ''-'' \<or> is_digit c"
    using fmt6_finite_shape by blast
  have "CHR ''.'' \<notin> set p" using q is_digit_not_dot by auto
  moreover have "CHR ''.'' \<notin> set ds" using d is_digit_not_dot by auto
  ultimately have "split_on CHR ''.'' (fmt6_finite x) = [p, ds]"
    by (simp add: e split_on_prefix split_on_nosep)
  then show ?thesis using l d by (simp add: six_decimals_def list_all_iff)
qed

lemma count_bar_fmt6_finite: "count_bar (fmt6_finite x) = 0"
proof -
  obtain p ds where e: "fmt6_finite x = p @ CHR ''.'' # ds"
    and d: "\<forall>c \<in> set ds. is_digit c" and q: "\<forall>c \<in> set p. c = CHR ''-'' \<or> is_digit c"
    using fmt6_finite_shape by blast
  have "CHR ''|'' \<notin> set (fmt6_finite x)" using d q is_digit_not_bar by (auto simp: e)
  then show ?thesis by (auto simp: count_bar_def filter_empty_conv)
qed

lemma six_decimals_fmt6: "is_finite x \<Longrightarrow> six_decimals (fmt6 x)"
proof (cases x)
  case (Finite q)
  then show ?thesis by (simp add: fmt6_def six_decimals_fmt6_finite)
next
  case NegZero
  then show ?thesis by (simp add: fmt6_def six_decimals_def is_digit_def)
qed (simp_all add: is_finite_def)

lemma not_six_decimals_nan: "\<not> six_decimals (fmt6 NaN)"
  by (simp add: fmt6_def six_decimals_def)

lemma count_bar_fmt6: "count_bar (fmt6 x) = 0"
  by (cases x) (simp_all add: fmt6_def count_bar_fmt6_finite, simp_all add: count_bar_def)

lemma count_bar_fmt_coord: "count_bar (fmt_coord x) = 0"
  by (cases x) (simp_all add: fmt_coord_def count_bar_fmt6, simp add: count_bar_def)

lemma count_bar_str_int: "count_bar (str_int i) = 0"
proof -
  have "CHR ''|'' \<notin> set (str_int i)"
    using is_digit_not_bar by (auto simp: str_int_def dest: str_nat_digits)
  then show ?thesis by (auto simp: count_bar_def filter_empty_conv)
qed

lemma count_bar_append: "count_bar (a @ b) = count_bar a + count_bar b"
  by (simp add: count_bar_def)

lemma count_bar_fmt_asn: "count_bar (fmt_asn x) = 0"
  using count_bar_str_int by (cases x) (simp_all add: fmt_asn_def count_bar_def)

lemma count_bar_zero: "count_bar s = 0 \<longleftrightarrow> CHR ''|'' \<notin> set s"
  by (auto simp: count_bar_def filter_empty_conv)

lemma digits_fixed_6:
  "digits_fixed 6 n =
     [digit_char (n div 10 div 10 div 10 div 10 div 10), digit_char (n div 10 div 10 div 10 div 10),
      digit_char (n div 10 div 10 div 10), digit_char (n div 10 div 10), digit_char (n div 10),
      digit_char n]"
proof -
  have six: "(6::nat) = Suc (Suc (Suc (Suc (Suc (Suc 0)))))" by simp
  show ?thesis unfolding six by simp
qed
lemma bars_us: "bars us_result = 0"
  by (simp add: bars_def us_result_def or_empty_def count_bar_def)

lemma fmt_us_lat: "fmt6 (Finite (37751 / 1000)) = ''37.751000''"
  by (simp add: fmt6_def fmt6_finite_def round_half_even_def digits_fixed_6 str_nat.simps
      digit_char_def)

lemma fmt_us_lon: "fmt6 (Finite (- (97822 / 1000))) = ''-97.822000''"
  by (simp add: fmt6_def fmt6_finite_def round_half_even_def digits_fixed_6 str_nat.simps
      digit_char_def)

subsection \<open>The encoded field\<close>

text \<open>
  C3 (as amended). \<^verbatim>\<open>format_geoip\<close> is total. Splitting its result on the bar gives seven
  parts plus one part for every bar inside the four text fields; when no text field holds
  a bar the parts are, in this order, country, region, city, latitude, longitude, number
  and organisation. An absent field is the empty string, a coordinate that is present and
  finite has exactly six decimal digits, a coordinate that is not a number or is infinite
  is \<^verbatim>\<open>nan\<close>, \<^verbatim>\<open>inf\<close> or \<^verbatim>\<open>-inf\<close>, and a number that is present is \<^verbatim>\<open>AS\<close> followed by
  the number.
\<close>

theorem format_geoip_seven_parts:
  "length (split_on CHR ''|'' (format_geoip r)) = 7 + bars r \<and>
   (bars r = 0 \<longrightarrow>
      split_on CHR ''|'' (format_geoip r) =
        [or_empty (country_iso r), or_empty (region r), or_empty (city r),
         fmt_coord (lat r), fmt_coord (lon r), fmt_asn (asn r), or_empty (org r)]) \<and>
   or_empty None = [] \<and> fmt_coord None = [] \<and> fmt_asn None = [] \<and>
   (is_finite v \<longrightarrow> six_decimals (fmt_coord (Some v))) \<and>
   fmt_coord (Some NaN) = ''nan'' \<and> fmt_coord (Some PosInf) = ''inf'' \<and>
   fmt_coord (Some NegInf) = ''-inf'' \<and>
   fmt_asn (Some n) = ''AS'' @ str_int n"
proof -
  have len: "length (split_on CHR ''|'' (format_geoip r)) = 7 + bars r"
    using count_bar_fmt_coord[of "lat r"] count_bar_fmt_coord[of "lon r"]
      count_bar_fmt_asn[of "asn r"]
    by (simp add: split_on_length format_geoip_def parts_def bars_def count_bar_def)
  have eq: "split_on CHR ''|'' (format_geoip r) = parts r" if "bars r = 0"
  proof -
    have "\<forall>p \<in> set (parts r). CHR ''|'' \<notin> set p"
      using that count_bar_fmt_coord[of "lat r"] count_bar_fmt_coord[of "lon r"]
        count_bar_fmt_asn[of "asn r"]
      by (simp add: parts_def bars_def count_bar_zero)
    moreover have "parts r \<noteq> []" by (simp add: parts_def)
    ultimately show ?thesis
      unfolding format_geoip_def using split_join[of "parts r" "CHR ''|''"] by simp
  qed
  have six: "is_finite v \<longrightarrow> six_decimals (fmt_coord (Some v))"
    using six_decimals_fmt6[of v] by (simp add: fmt_coord_def)
  show ?thesis
    using len eq six
    by (simp add: parts_def or_empty_def fmt_coord_def fmt_asn_def fmt6_def)
qed

theorem format_geoip_seven_parts_witness:
  "bars us_result = 0 \<and>
   split_on CHR ''|'' (format_geoip us_result) =
     [''US'', [], [], ''37.751000'', ''-97.822000'', [], []] \<and>
   is_finite (Finite (37751 / 1000)) \<and>
   six_decimals (fmt_coord (Some (Finite (37751 / 1000))))"
proof -
  have f: "is_finite (Finite (37751 / 1000))" by (simp add: is_finite_def)
  have "six_decimals (fmt_coord (Some (Finite (37751 / 1000))))"
    using format_geoip_seven_parts [of us_result "Finite (37751 / 1000)"] f by blast
  moreover have "split_on CHR ''|'' (format_geoip us_result) =
     [''US'', [], [], ''37.751000'', ''-97.822000'', [], []]"
    using format_geoip_seven_parts [of us_result] bars_us fmt_us_lat fmt_us_lon
    by (simp add: us_result_def or_empty_def fmt_coord_def fmt_asn_def)
  ultimately show ?thesis using bars_us f by blast
qed

text \<open>
  An organisation name with a bar in it gives eight parts, not seven, and a latitude that
  is not a number renders without decimal digits.
\<close>

theorem format_geoip_counterexample:
  "length (split_on CHR ''|'' (format_geoip (us_result\<lparr>org := Some ''A|B''\<rparr>))) \<noteq> 7 \<and>
   \<not> six_decimals (fmt_coord (lat (us_result\<lparr>lat := Some NaN\<rparr>)))"
proof -
  have "length (split_on CHR ''|'' (format_geoip (us_result\<lparr>org := Some ''A|B''\<rparr>))) = 8"
    using fmt_us_lat fmt_us_lon
    by (simp add: format_geoip_def parts_def us_result_def or_empty_def fmt_coord_def
        fmt_asn_def)
  then show ?thesis using not_six_decimals_nan by (simp add: fmt_coord_def)
qed

subsection \<open>The classifier\<close>

lemma dropWhile_id: "xs = [] \<or> \<not> P (hd xs) \<Longrightarrow> dropWhile P xs = xs"
  by (cases xs) auto

lemma dropWhile_hd: "dropWhile P xs = [] \<or> \<not> P (hd (dropWhile P xs))"
  by (metis hd_dropWhile)

lemma rstrip_keeps_hd:
  assumes "t \<noteq> []" "\<not> P (hd t)"
  shows "rev (dropWhile P (rev t)) \<noteq> [] \<and> hd (rev (dropWhile P (rev t))) = hd t"
proof -
  have l: "last (rev t) = hd t" using assms(1) by (simp add: last_rev)
  have ne: "dropWhile P (rev t) \<noteq> []"
    using assms l by (metis dropWhile_eq_Nil_conv last_in_set rev_is_Nil_conv)
  have "takeWhile P (rev t) @ dropWhile P (rev t) = rev t" by simp
  then have "last (dropWhile P (rev t)) = last (rev t)"
    using ne by (metis last_appendR)
  then show ?thesis using ne l by (simp add: hd_rev)
qed

lemma strip_strip: "strip (strip s) = strip s"
proof -
  define t where "t = dropWhile is_space s"
  define u where "u = rev (dropWhile is_space (rev t))"
  have su: "strip s = u" by (simp add: strip_def t_def u_def)
  have "u = [] \<or> \<not> is_space (hd u)"
  proof (cases "t = []")
    case True
    then show ?thesis by (simp add: u_def)
  next
    case False
    then have "\<not> is_space (hd t)" unfolding t_def using dropWhile_hd[of is_space s] by blast
    then show ?thesis using rstrip_keeps_hd[OF False] by (simp add: u_def)
  qed
  then have a: "dropWhile is_space u = u" by (rule dropWhile_id)
  have "rev u = dropWhile is_space (rev t)" by (simp add: u_def)
  then have "dropWhile is_space (rev u) = rev u" by (metis dropWhile_idem)
  then have "strip u = u" by (simp add: strip_def a)
  then show ?thesis by (simp add: su)
qed

lemma strip_Nil: "strip [] = []"
  by (simp add: strip_def)

lemma is_public_ip_classify:
  "ip_address E [] = None \<Longrightarrow> is_public_ip E s = (classify E s = ValidPublic)"
  by (cases "ip_address E (strip s)")
     (auto simp: is_public_ip_def classify_def non_routable_def)

lemma classify_strip: "classify E (strip s) = classify E s"
  by (simp add: classify_def strip_strip)

lemma is_public_ip_strip: "is_public_ip E (strip s) = is_public_ip E s"
  by (simp add: is_public_ip_def strip_strip)

lemma compute_classify:
  "compute E cr ar (CStr s) =
     (if classify E s = ValidPublic
      then (format_geoip (fst (lookup cr ar (strip s))), snd (lookup cr ar (strip s)))
      else ([], []))"
proof (cases "strip s = []")
  case True
  then show ?thesis by (simp add: compute_def classify_def)
next
  case False
  then show ?thesis
    by (cases "ip_address E (strip s)")
       (simp_all add: compute_def Let_def is_public_ip_def classify_def strip_strip
          non_routable_def split: prod.splits)
qed


text \<open>
  C9. \<^verbatim>\<open>is_public_ip\<close> is a function of the string and of the address parser alone. It
  trims the string before parsing, so surrounding whitespace changes nothing. With a parser
  that rejects the empty string, as \<^verbatim>\<open>ipaddress.ip_address\<close> does, it holds exactly on the
  strings of class Valid-Public, where every string has one class: Invalid for the empty
  string and every unparsable one, Valid-Non-Routable for a parsed address in a private,
  loopback, reserved, link-local or multicast range, Valid-Public for every other parsed
  address.
\<close>

theorem classifier_three_classes:
  assumes "ip_address E [] = None"
  shows "is_public_ip E s = (classify E s = ValidPublic) \<and>
         is_public_ip E (strip s) = is_public_ip E s \<and>
         classify E (strip s) = classify E s \<and>
         classify E [] = Invalid \<and>
         (ip_address E (strip s) = None \<longrightarrow> classify E s = Invalid) \<and>
         (\<forall>ip. ip_address E (strip s) = Some ip \<and> non_routable ip \<longrightarrow>
               classify E s = ValidNonRoutable) \<and>
         (\<forall>ip. ip_address E (strip s) = Some ip \<and> \<not> non_routable ip \<longrightarrow>
               classify E s = ValidPublic)"
proof -
  have "classify E [] = Invalid" by (simp add: classify_def strip_Nil)
  moreover have "ip_address E (strip s) = None \<longrightarrow> classify E s = Invalid"
    by (simp add: classify_def)
  moreover have "\<forall>ip. ip_address E (strip s) = Some ip \<and> non_routable ip \<longrightarrow>
      classify E s = ValidNonRoutable"
    using assms by (auto simp: classify_def)
  moreover have "\<forall>ip. ip_address E (strip s) = Some ip \<and> \<not> non_routable ip \<longrightarrow>
      classify E s = ValidPublic"
    using assms by (auto simp: classify_def)
  ultimately show ?thesis
    using is_public_ip_classify[OF assms] classify_strip is_public_ip_strip by blast
qed


theorem classifier_three_classes_witness:
  "ip_address sample_env [] = None \<and>
   classify sample_env ''not-an-ip'' = Invalid \<and> \<not> is_public_ip sample_env ''not-an-ip'' \<and>
   classify sample_env ''10.0.0.1'' = ValidNonRoutable \<and> \<not> is_public_ip sample_env ''10.0.0.1'' \<and>
   classify sample_env '' 8.8.8.8 '' = ValidPublic \<and> is_public_ip sample_env '' 8.8.8.8 ''"
proof -
  have e: "ip_address sample_env [] = None"
    by (simp add: sample_env_def sample_ip_address_def)
  have s1: "strip ''not-an-ip'' = ''not-an-ip''" by (simp add: strip_def is_space_def)
  have s2: "strip ''10.0.0.1'' = ''10.0.0.1''" by (simp add: strip_def is_space_def)
  have s3: "strip '' 8.8.8.8 '' = ''8.8.8.8''" by (simp add: strip_def is_space_def)
  have p1: "ip_address sample_env (strip ''not-an-ip'') = None"
    by (simp add: s1 sample_env_def sample_ip_address_def)
  have p2: "ip_address sample_env (strip ''10.0.0.1'') = Some private_addr \<and> non_routable private_addr"
    by (simp add: s2 sample_env_def sample_ip_address_def private_addr_def non_routable_def)
  have p3: "ip_address sample_env (strip '' 8.8.8.8 '') = Some public_addr \<and> \<not> non_routable public_addr"
    by (simp add: s3 sample_env_def sample_ip_address_def public_addr_def non_routable_def)
  show ?thesis
    using e p1 p2 p3
      classifier_three_classes [OF e, of "''not-an-ip''"]
      classifier_three_classes [OF e, of "''10.0.0.1''"]
      classifier_three_classes [OF e, of "'' 8.8.8.8 ''"]
    by simp
qed


subsection \<open>The per-row computation\<close>

text \<open>
  C7. For a cell whose address is of class Valid-Non-Routable the per-row computation
  returns the empty string and queries neither database: its trace of database events
  is empty.
\<close>

theorem non_routable_no_lookup:
  "classify E s = ValidNonRoutable \<Longrightarrow> compute E cr ar (CStr s) = ([], [])"
  by (simp add: compute_classify)


lemma ev1: "strip '' 10.0.0.1 '' = ''10.0.0.1''"
  by (simp add: strip_def is_space_def)

theorem non_routable_no_lookup_witness:
  "classify sample_env '' 10.0.0.1 '' = ValidNonRoutable \<and>
   compute sample_env city_rd (Some asn_rd) (CStr '' 10.0.0.1 '') = ([], [])"
proof -
  have c: "classify sample_env '' 10.0.0.1 '' = ValidNonRoutable"
    by (simp add: classify_def ev1 sample_env_def sample_ip_address_def private_addr_def
        non_routable_def)
  show ?thesis using c non_routable_no_lookup [OF c] by simp
qed

lemma compute_empty_cases:
  "compute E cr ar CNaN = ([], [])"
  "compute E cr ar (CInt i) = ([], [])"
  "strip s = [] \<Longrightarrow> compute E cr ar (CStr s) = ([], [])"
  "classify E s = Invalid \<Longrightarrow> compute E cr ar (CStr s) = ([], [])"
proof -
  show "compute E cr ar CNaN = ([], [])" by (simp add: compute_def)
  show "compute E cr ar (CInt i) = ([], [])" by (simp add: compute_def)
  show "strip s = [] \<Longrightarrow> compute E cr ar (CStr s) = ([], [])"
    by (simp add: compute_classify classify_def)
  show "classify E s = Invalid \<Longrightarrow> compute E cr ar (CStr s) = ([], [])"
    by (simp add: compute_classify)
qed

subsection \<open>The lookup adapter\<close>

text \<open>
  C5. \<^verbatim>\<open>lookup\<close> is total: whatever a backend call raises is caught, so it always returns
  a result. With an ownership reader configured both backends are queried, once each and
  in this order, whatever either one answers. When the location query fails the five
  location fields are absent and the ownership fields are still those the ownership
  backend serves; when the ownership query fails the result is the one obtained without
  an ownership reader, so the location fields are unaffected. Without an ownership reader
  the number and the organisation are absent and only the location backend is queried.
\<close>

theorem lookup_fault_tolerant:
  "snd (lookup cr (Some a) ip) = [Query CityDb ip, Query AsnDb ip] \<and>
   (city_m cr ip = None \<longrightarrow>
      country_iso (fst (lookup cr (Some a) ip)) = None \<and>
      region (fst (lookup cr (Some a) ip)) = None \<and>
      city (fst (lookup cr (Some a) ip)) = None \<and>
      lat (fst (lookup cr (Some a) ip)) = None \<and>
      lon (fst (lookup cr (Some a) ip)) = None \<and>
      asn (fst (lookup cr (Some a) ip)) =
        (case asn_m a ip of None \<Rightarrow> None | Some x \<Rightarrow> autonomous_system_number x) \<and>
      org (fst (lookup cr (Some a) ip)) =
        (case asn_m a ip of None \<Rightarrow> None | Some x \<Rightarrow> autonomous_system_organization x)) \<and>
   (asn_m a ip = None \<longrightarrow>
      fst (lookup cr (Some a) ip) = fst (lookup cr None ip)) \<and>
   asn (fst (lookup cr None ip)) = None \<and>
   org (fst (lookup cr None ip)) = None \<and>
   snd (lookup cr None ip) = [Query CityDb ip]"
  by (simp add: lookup_def city_fields_def asn_fields_def split: option.splits prod.splits)

theorem lookup_fault_tolerant_witness:
  "city_m city_rd ''1.1.1.1'' = None \<and>
   asn (fst (lookup city_rd (Some asn_rd) ''1.1.1.1'')) = Some 13335 \<and>
   org (fst (lookup city_rd (Some asn_rd) ''1.1.1.1'')) = Some ''Cloudflare'' \<and>
   country_iso (fst (lookup city_rd (Some asn_rd) ''1.1.1.1'')) = None \<and>
   asn_m city_rd ''8.8.8.8'' = None \<and>
   fst (lookup city_rd (Some city_rd) ''8.8.8.8'') = fst (lookup city_rd None ''8.8.8.8'')"
  using lookup_fault_tolerant [of city_rd asn_rd "''1.1.1.1''"]
    lookup_fault_tolerant [of city_rd city_rd "''8.8.8.8''"]
  by (simp add: city_rd_def asn_rd_def)

subsection \<open>Reading the sample files\<close>

lemma table_clean:
  assumes "\<forall>r \<in> set (rows df). \<forall>c \<in> set r. \<exists>s. c = CStr s"
  shows "table sample_env (clean df) = df"
proof -
  have cell: "CStr (str_of_cell c) = c" if r: "r \<in> set (rows df)" and c: "c \<in> set r" for r c
  proof -
    from assms r c have "\<exists>s. c = CStr s" by blast
    then show ?thesis by (auto simp: str_of_cell_def)
  qed
  have row: "map (\<lambda>c. CStr (str_of_cell c)) r = r" if r: "r \<in> set (rows df)" for r
    by (rule map_idI) (rule cell[OF r])
  have all: "map (\<lambda>r. map (\<lambda>c. CStr (str_of_cell c)) r) (rows df) = rows df"
    by (rule map_idI) (rule row)
  have "table sample_env (clean df) =
      \<lparr>columns = columns df,
       rows = map (\<lambda>r. map (\<lambda>c. CStr (str_of_cell c)) r) (rows df)\<rparr>"
    by (simp add: table_def parse_rows_def clean_def sample_env_def comp_def)
  also have "\<dots> = \<lparr>columns = columns df, rows = rows df\<rparr>" by (simp only: all)
  also have "\<dots> = df" by simp
  finally show ?thesis .
qed

lemma read_clean:
  assumes "\<forall>r \<in> set (rows df). \<forall>c \<in> set r. \<exists>s. c = CStr s"
  shows "read_csv sample_env (clean df) = Inr df"
  using table_clean[OF assms] by (simp add: read_csv_def clean_def)

lemma read_samples:
  "read_csv sample_env (clean one_bad) = Inr one_bad"
  "read_csv sample_env (clean four) = Inr four"
  "read_csv sample_env (clean abc) = Inr abc"
  "read_csv sample_env (clean taken) = Inr taken"
  "read_csv sample_env (clean mixed) = Inr mixed"
  "read_csv sample_env (clean words) = Inr words"
  by (rule read_clean, simp add: one_bad_def four_def abc_def taken_def mixed_def words_def)+

lemma table_samples:
  "table sample_env (clean taken) = taken"
  "table sample_env (clean mixed) = mixed"
  "table sample_env (clean four) = four"
  "table sample_env (clean words) = words"
  by (rule table_clean, simp add: four_def taken_def mixed_def words_def)+

subsection \<open>The options for invalid addresses\<close>

text \<open>
  No function of the script reads \<^verbatim>\<open>keep_invalid\<close> or \<^verbatim>\<open>invalid_marker\<close>: the run is the
  same whatever they are.
\<close>

lemma chunk_step_ignores_keep_invalid:
  "chunk_step E (a\<lparr>arg_keep_invalid := b, arg_invalid_marker := m\<rparr>) item first d fl =
   chunk_step E a item first d fl"
  by (cases item) (simp_all add: chunk_step_def Let_def cong: if_cong)

lemma process_all_ignores_keep_invalid:
  "process_all E (a\<lparr>arg_keep_invalid := b, arg_invalid_marker := m\<rparr>) f = process_all E a f"
proof -
  have "chunk_loop E (a\<lparr>arg_keep_invalid := b, arg_invalid_marker := m\<rparr>) cs first d fl =
        chunk_loop E a cs first d fl" for cs first d fl
    by (induction cs arbitrary: first d fl)
       (simp_all add: chunk_step_ignores_keep_invalid split: sum.splits prod.splits)
  then show ?thesis
    by (cases "read_csv E f") (simp_all add: process_all_def Let_def cong: if_cong)
qed

lemma strip_not_an_ip: "strip ''not-an-ip'' = ''not-an-ip''" by (simp add: strip_def is_space_def)

lemma compute_bad: "compute sample_env city_rd None (CStr ''not-an-ip'') = ([], [])"
  by (simp add: compute_def strip_not_an_ip is_public_ip_def sample_env_def sample_ip_address_def)

lemma enrich_bad:
  "enrich_body sample_env city_rd None one_bad ''ip'' ''geoip'' =
     (Inr \<lparr>columns = [''ip'', ''geoip''], rows = [[CStr ''not-an-ip'', CStr []]]\<rparr>, [])"
  by (simp add: enrich_body_def one_bad_def index_of_def astype_str_def str_of_cell_def
      compute_bad df_insert_def insert_at_def select_cols_def)

text \<open>
  C1 (the code with the keep-invalid option). With \<^verbatim>\<open>--keep-invalid\<close> set and the marker
  \<^verbatim>\<open>invalid_ip\<close>, the row whose address is \<^verbatim>\<open>not-an-ip\<close> gets the empty string in the new
  column, not the marker, against the help text of the option. Without the option the
  property holds (\<open>compute_empty_cases\<close>): a cell that is not a string, is empty after
  trimming or is invalid gives the empty string, and the computation is total.
\<close>

theorem keep_invalid_ignored:
  "process_all sample_env
     (sample_args\<lparr>arg_ip_col := Some ''ip'', arg_keep_invalid := True,
                  arg_invalid_marker := ''invalid_ip''\<rparr>) (clean one_bad) =
   \<lparr>outcome = None,
    out_file = Some [Header [''ip'', ''geoip''], Row [CStr ''not-an-ip'', CStr []]],
    trace = [Acquire CityDb, Release CityDb]\<rparr>"
proof -
  have r: "Reader sample_env ''city.mmdb'' = Some city_rd" by (simp add: sample_env_def)
  have e: "enrich_dataframe sample_env one_bad ''ip'' ''city.mmdb'' None ''geoip'' =
     (Inr \<lparr>columns = [''ip'', ''geoip''], rows = [[CStr ''not-an-ip'', CStr []]]\<rparr>,
      [Acquire CityDb, Release CityDb])"
    by (simp add: enrich_dataframe_def r open_asn_def truthy_def enrich_bad)
  show ?thesis
    by (simp add: process_all_def sample_args_def read_samples py_or_def truthy_def
        e to_csv_def)
qed

subsection \<open>Inserting the column\<close>

lemma apply_compute_fst:
  "fst (apply_compute E cr ar vs) = map (\<lambda>v. fst (compute E cr ar v)) vs"
  by (induction vs) (simp_all add: Let_def case_prod_beta)

lemma apply_compute_snd:
  "snd (apply_compute E cr ar vs) = concat (map (\<lambda>v. snd (compute E cr ar v)) vs)"
  by (induction vs) (simp_all add: Let_def case_prod_beta)

lemma zip_map_same: "map (\<lambda>(r, v). g r v) (zip rs (map f rs)) = map (\<lambda>r. g r (f r)) rs"
  by (induction rs) simp_all

lemma index_of_nth:
  "distinct xs \<Longrightarrow> j < length xs \<Longrightarrow> index_of xs (xs ! j) = j"
proof (induction xs arbitrary: j)
  case Nil
  then show ?case by simp
next
  case (Cons x xs)
  then show ?case by (cases j) (auto simp: index_of_def)
qed

lemma index_of_less: "x \<in> set xs \<Longrightarrow> index_of xs x < length xs"
  unfolding index_of_def by (induction xs) auto

lemma nth_index_of: "x \<in> set xs \<Longrightarrow> xs ! index_of xs x = x"
  unfolding index_of_def by (induction xs) auto

lemma select_all_id:
  assumes "distinct xs" "length r = length xs"
  shows "map (\<lambda>c. r ! index_of xs c) xs = r"
proof (rule nth_equalityI)
  show "length (map (\<lambda>c. r ! index_of xs c) xs) = length r" using assms by simp
next
  fix j assume "j < length (map (\<lambda>c. r ! index_of xs c) xs)"
  then have j: "j < length xs" by simp
  then show "map (\<lambda>c. r ! index_of xs c) xs ! j = r ! j"
    using index_of_nth[OF assms(1) j] by simp
qed

text \<open>The result of the \<^verbatim>\<open>try\<close> block of \<^verbatim>\<open>enrich_dataframe\<close>, for any frame.\<close>

lemma enrich_body_fst:
  "fst (enrich_body E cr ar df ip_col geoip_col) =
     (if ip_col \<notin> set (columns df) then Inl (KeyError ip_col)
      else if geoip_col \<in> set (columns df)
      then Inl (ValueError (''cannot insert '' @ geoip_col @ '', already exists''))
      else Inr (select_cols
             \<lparr>columns = insert_at (Suc (index_of (columns df) ip_col)) geoip_col (columns df),
              rows = map (\<lambda>r. insert_at (Suc (index_of (columns df) ip_col))
                                (geo_cell E cr ar (r ! index_of (columns df) ip_col)) r)
                         (rows df)\<rparr>
             (new_cols (columns df) ip_col geoip_col)))"
proof -
  have z: "map (\<lambda>(r, v). insert_at k v r)
             (zip rs (map CStr (fst (apply_compute E cr ar (map (\<lambda>r. astype_str (r ! i)) rs))))) =
           map (\<lambda>r. insert_at k (geo_cell E cr ar (r ! i)) r) rs" for k i rs
    using zip_map_same[of "\<lambda>r v. insert_at k v r" rs "\<lambda>r. geo_cell E cr ar (r ! i)"]
    by (simp add: apply_compute_fst geo_cell_def comp_def)
  show ?thesis
    by (simp add: enrich_body_def Let_def case_prod_beta df_insert_def new_cols_def z)
qed

lemma enrich_body_ok:
  assumes "wf_df df" "ip_col \<in> set (columns df)" "geoip_col \<notin> set (columns df)"
  shows "fst (enrich_body E cr ar df ip_col geoip_col) =
           Inr \<lparr>columns = new_cols (columns df) ip_col geoip_col,
                rows = map (\<lambda>r. insert_at (Suc (index_of (columns df) ip_col))
                                (geo_cell E cr ar (r ! index_of (columns df) ip_col)) r)
                           (rows df)\<rparr>"
proof -
  define i where "i = index_of (columns df) ip_col"
  define nc where "nc = new_cols (columns df) ip_col geoip_col"
  have i: "i < length (columns df)" using assms(2) by (simp add: i_def index_of_less)
  have nc: "nc = insert_at (Suc i) geoip_col (columns df)"
    by (simp add: nc_def new_cols_def insert_at_def i_def)
  have d: "distinct nc"
  proof -
    have "set (take (Suc i) (columns df)) \<inter> set (drop (Suc i) (columns df)) = {}"
      using assms(1) by (metis append_take_drop_id distinct_append wf_df_def)
    moreover have "distinct (take (Suc i) (columns df))" "distinct (drop (Suc i) (columns df))"
      using assms(1) by (simp_all add: wf_df_def)
    moreover have "geoip_col \<notin> set (take (Suc i) (columns df))"
      "geoip_col \<notin> set (drop (Suc i) (columns df))"
      using assms(3) by (auto dest: in_set_takeD in_set_dropD)
    ultimately show ?thesis by (auto simp: nc insert_at_def)
  qed
  have l: "length nc = Suc (length (columns df))" using i by (simp add: nc insert_at_def)
  have r: "map (\<lambda>c. insert_at (Suc i) v r ! index_of nc c) nc = insert_at (Suc i) v r"
    if "r \<in> set (rows df)" for r v
  proof -
    have "length r = length (columns df)"
      using assms(1) that by (simp add: wf_df_def list_all_iff)
    then have "length (insert_at (Suc i) v r) = length nc"
      using i l by (simp add: insert_at_def)
    then show ?thesis by (rule select_all_id[OF d])
  qed
  show ?thesis
    using assms(2,3) r
    by (simp add: enrich_body_fst select_cols_def i_def[symmetric] nc_def[symmetric] nc[symmetric])
qed

text \<open>
  C8 (as amended). For a well-formed frame whose schema holds the target column and does
  not hold the new column name, the output schema is the input schema with the new name
  at the position after the target, wherever the target is, and every other name in its
  place; every output row is the input row with the computed cell added at that position
  and every other cell unchanged, in the same order.
\<close>

theorem column_inserted_after_target:
  assumes "wf_df df" "ip_col \<in> set (columns df)" "geoip_col \<notin> set (columns df)"
  shows "\<exists>out ev.
           enrich_body E cr ar df ip_col geoip_col = (Inr out, ev) \<and>
           (let i = index_of (columns df) ip_col
            in columns df ! i = ip_col \<and>
               columns out = take (Suc i) (columns df) @ geoip_col # drop (Suc i) (columns df) \<and>
               columns out ! Suc i = geoip_col \<and>
               rows out =
                 map (\<lambda>r. take (Suc i) r @ geo_cell E cr ar (r ! i) # drop (Suc i) r) (rows df))"
proof -
  define i where "i = index_of (columns df) ip_col"
  have i: "i < length (columns df)" using assms(2) by (simp add: i_def index_of_less)
  obtain res ev where e: "enrich_body E cr ar df ip_col geoip_col = (res, ev)"
    by (cases "enrich_body E cr ar df ip_col geoip_col")
  have f: "res = Inr \<lparr>columns = new_cols (columns df) ip_col geoip_col,
                rows = map (\<lambda>r. insert_at (Suc i) (geo_cell E cr ar (r ! i)) r) (rows df)\<rparr>"
    using enrich_body_ok[OF assms, of E cr ar] e by (simp add: i_def)
  have n: "(take (Suc i) (columns df) @ geoip_col # drop (Suc i) (columns df)) ! Suc i = geoip_col"
    using i by (simp add: nth_append)
  show ?thesis
    using e f n nth_index_of[OF assms(2)]
    by (simp add: Let_def i_def[symmetric] new_cols_def insert_at_def)
qed

lemma index_abc: "index_of (columns abc) ''ip'' = 1"
  by (simp add: abc_def index_of_def)

lemma strip_private: "strip ''10.0.0.1'' = ''10.0.0.1''"
  by (simp add: strip_def is_space_def)

lemma geo_cell_private: "geo_cell sample_env city_rd None (CStr ''10.0.0.1'') = CStr []"
  by (simp add: geo_cell_def astype_str_def str_of_cell_def compute_def strip_private
      is_public_ip_def sample_env_def sample_ip_address_def private_addr_def)

theorem column_inserted_after_target_witness:
  "wf_df abc \<and> ''ip'' \<in> set (columns abc) \<and> ''geoip'' \<notin> set (columns abc) \<and>
   (\<exists>out ev. enrich_body sample_env city_rd None abc ''ip'' ''geoip'' = (Inr out, ev) \<and>
      columns out = [''a'', ''ip'', ''geoip'', ''b'', ''c''] \<and>
      rows out = [[CStr ''x'', CStr ''10.0.0.1'', CStr [], CStr ''y'', CStr ''z'']])"
proof -
  have w: "wf_df abc" by (simp add: wf_df_def abc_def)
  have i: "''ip'' \<in> set (columns abc)" by (simp add: abc_def)
  have g: "''geoip'' \<notin> set (columns abc)" by (simp add: abc_def)
  have "\<exists>out ev. enrich_body sample_env city_rd None abc ''ip'' ''geoip'' = (Inr out, ev) \<and>
      columns out = [''a'', ''ip'', ''geoip'', ''b'', ''c''] \<and>
      rows out = [[CStr ''x'', CStr ''10.0.0.1'', CStr [], CStr ''y'', CStr ''z'']]"
    using column_inserted_after_target [OF w i g, of sample_env city_rd None]
    by (simp add: index_abc) (auto simp: abc_def geo_cell_private)
  then show ?thesis using w i g by simp
qed

text \<open>
  When the schema already holds the new column name the insertion raises: there is no
  output schema.
\<close>

theorem column_insert_collision_counterexample:
  "wf_df taken \<and> ''ip'' \<in> set (columns taken) \<and>
   \<not> (\<exists>out ev. enrich_body sample_env city_rd None taken ''ip'' ''geoip'' = (Inr out, ev))"
proof -
  have "fst (enrich_body sample_env city_rd None taken ''ip'' ''geoip'') =
          Inl (ValueError ''cannot insert geoip, already exists'')"
    by (simp add: enrich_body_fst taken_def)
  then show ?thesis by (auto simp: wf_df_def taken_def)
qed

lemma chunks_of_nonempty: "0 < n \<Longrightarrow> xs \<noteq> [] \<Longrightarrow> chunks_of n xs \<noteq> []"
  by (subst chunks_of.simps) simp

lemma batches_nonempty: "0 < n \<Longrightarrow> batches n xs \<noteq> []"
  by (simp add: batches_def chunks_of_nonempty)

lemma df_chunks_nonempty: "0 < n \<Longrightarrow> df_chunks E n f \<noteq> []"
  by (simp add: df_chunks_def batches_nonempty)

lemma df_chunks_columns: "c \<in> set (df_chunks E n f) \<Longrightarrow> columns c = csv_header f"
  by (auto simp: df_chunks_def parse_rows_def)

lemma table_columns: "columns (table E f) = csv_header f"
  by (simp add: table_def parse_rows_def)

lemma read_csv_chunks_nonempty: "0 < n \<Longrightarrow> read_csv_chunks E n f \<noteq> []"
  by (cases "read_csv E f") (simp_all add: read_csv_chunks_def df_chunks_nonempty)

lemma read_csv_table: "read_csv E f = Inr df \<Longrightarrow> df = table E f"
  by (auto simp: read_csv_def split: option.splits if_splits)

lemma read_csv_chunks_columns:
  "Inr c \<in> set (read_csv_chunks E n f) \<Longrightarrow> columns c = csv_header f"
proof (cases "read_csv E f")
  case (Inl e)
  assume "Inr c \<in> set (read_csv_chunks E n f)"
  then have "c \<in> set (take (the (bad_row f) div n) (df_chunks E n f))"
    using Inl by (auto simp: read_csv_chunks_def)
  then have "c \<in> set (df_chunks E n f)" by (rule in_set_takeD)
  then show ?thesis by (rule df_chunks_columns)
next
  case (Inr df)
  assume "Inr c \<in> set (read_csv_chunks E n f)"
  then have "c \<in> set (df_chunks E n f)"
    using Inr by (auto simp: read_csv_chunks_def)
  then show ?thesis by (rule df_chunks_columns)
qed

lemma enrich_dataframe_collision:
  assumes "g \<in> set (columns df)"
  shows "\<exists>e ev. enrich_dataframe E df c cdb adb g = (Inl e, ev)"
proof (cases "Reader E cdb")
  case None
  then show ?thesis by (simp add: enrich_dataframe_def)
next
  case (Some cr)
  show ?thesis
  proof (cases "open_asn E adb")
    case None
    then show ?thesis using Some by (simp add: enrich_dataframe_def)
  next
    case (Some ar)
    have "\<exists>e. fst (enrich_body E cr ar df c g) = Inl e"
      using assms by (simp add: enrich_body_fst)
    then show ?thesis
      using \<open>Reader E cdb = Some cr\<close> Some
      by (cases "enrich_body E cr ar df c g") (auto simp: enrich_dataframe_def)
  qed
qed

lemma chunk_step_Inl: "chunk_step E a (Inl e) first d fl = Inl (failed e fl [])"
  by (simp add: chunk_step_def)

lemma chunk_step_unresolved:
  "\<not> truthy (resolved E a chunk d) \<Longrightarrow>
   chunk_step E a (Inr chunk) first d fl = Inl (failed no_ip_col fl [])"
  by (auto simp: chunk_step_def resolved_def Let_def split: if_splits)

lemma chunk_step_failed:
  "truthy (resolved E a chunk d) \<Longrightarrow>
   enrich_dataframe E chunk (the (resolved E a chunk d)) (arg_city_db a) (arg_asn_db a)
     (arg_geoip_col a) = (Inl e, ev) \<Longrightarrow>
   chunk_step E a (Inr chunk) first d fl = Inl (failed e fl ev)"
  by (auto simp: chunk_step_def resolved_def Let_def split: if_splits)

lemma chunk_step_ok:
  "truthy (resolved E a chunk d) \<Longrightarrow>
   enrich_dataframe E chunk (the (resolved E a chunk d)) (arg_city_db a) (arg_asn_db a)
     (arg_geoip_col a) = (Inr out, ev) \<Longrightarrow>
   chunk_step E a (Inr chunk) first d fl =
     Inr (if truthy (arg_ip_col a) then d else resolved E a chunk d, to_csv out fl first, ev)"
  by (auto simp: chunk_step_def resolved_def Let_def split: if_splits)

lemma process_all_chunked:
  "0 < arg_chunksize a \<Longrightarrow>
   process_all E a f =
     chunk_loop E a (read_csv_chunks E (nat (arg_chunksize a)) f) True None None"
  by (simp add: process_all_def)

lemma process_all_read_error:
  "\<not> 0 < arg_chunksize a \<Longrightarrow> read_csv E f = Inl e \<Longrightarrow> process_all E a f = failed e None []"
  by (simp add: process_all_def)

lemma process_all_unresolved:
  "\<not> 0 < arg_chunksize a \<Longrightarrow> read_csv E f = Inr df \<Longrightarrow>
   \<not> truthy (py_or (arg_ip_col a) (autodetect_ip_col E df)) \<Longrightarrow>
   process_all E a f = failed no_ip_col None []"
  by (simp add: process_all_def Let_def)

lemma process_all_failed:
  "\<not> 0 < arg_chunksize a \<Longrightarrow> read_csv E f = Inr df \<Longrightarrow>
   truthy (py_or (arg_ip_col a) (autodetect_ip_col E df)) \<Longrightarrow>
   enrich_dataframe E df (the (py_or (arg_ip_col a) (autodetect_ip_col E df)))
     (arg_city_db a) (arg_asn_db a) (arg_geoip_col a) = (Inl e, ev) \<Longrightarrow>
   process_all E a f = failed e None ev"
  by (simp add: process_all_def Let_def)

lemma process_all_ok:
  "\<not> 0 < arg_chunksize a \<Longrightarrow> read_csv E f = Inr df \<Longrightarrow>
   truthy (py_or (arg_ip_col a) (autodetect_ip_col E df)) \<Longrightarrow>
   enrich_dataframe E df (the (py_or (arg_ip_col a) (autodetect_ip_col E df)))
     (arg_city_db a) (arg_asn_db a) (arg_geoip_col a) = (Inr out, ev) \<Longrightarrow>
   process_all E a f = \<lparr>outcome = None, out_file = to_csv out None True, trace = ev\<rparr>"
  by (simp add: process_all_def Let_def)

lemma chunk_step_collision:
  assumes "\<And>c. item = Inr c \<Longrightarrow> arg_geoip_col a \<in> set (columns c)"
  shows "\<exists>e ev. chunk_step E a item first d fl = Inl (failed e fl ev)"
proof (cases item)
  case (Inl e)
  then show ?thesis using chunk_step_Inl by blast
next
  case (Inr c)
  then have g: "arg_geoip_col a \<in> set (columns c)" using assms by simp
  show ?thesis
  proof (cases "truthy (resolved E a c d)")
    case False
    then show ?thesis using chunk_step_unresolved Inr by blast
  next
    case True
    obtain e ev where
      "enrich_dataframe E c (the (resolved E a c d)) (arg_city_db a) (arg_asn_db a)
         (arg_geoip_col a) = (Inl e, ev)"
      using enrich_dataframe_collision[OF g] by blast
    then show ?thesis using chunk_step_failed[OF True] Inr by blast
  qed
qed

text \<open>
  C4. When the new column name is already in the input schema the run ends with an error
  and writes no output file, in both modes; the insertion itself reports the name that
  exists (the \<^verbatim>\<open>ValueError\<close> of \<^verbatim>\<open>DataFrame.insert\<close>), so nothing is overwritten, renamed or
  duplicated.
\<close>

theorem collision_aborts:
  assumes "arg_geoip_col a \<in> set (columns (table E f))"
  shows "(\<exists>e. outcome (process_all E a f) = Some e) \<and>
         out_file (process_all E a f) = None \<and>
         (\<forall>cr ar ip_col. ip_col \<in> set (columns (table E f)) \<longrightarrow>
            fst (enrich_body E cr ar (table E f) ip_col (arg_geoip_col a)) =
              Inl (ValueError (''cannot insert '' @ arg_geoip_col a @ '', already exists'')))"
proof -
  have h: "arg_geoip_col a \<in> set (csv_header f)" using assms by (simp add: table_columns)
  have run: "\<exists>e ev. process_all E a f = failed e None ev"
  proof (cases "0 < arg_chunksize a")
    case True
    define n where "n = nat (arg_chunksize a)"
    have n: "0 < n" using True by (simp add: n_def)
    obtain item items where i: "read_csv_chunks E n f = item # items"
      using read_csv_chunks_nonempty[OF n, of E f] by (cases "read_csv_chunks E n f") auto
    have "arg_geoip_col a \<in> set (columns c)" if "item = Inr c" for c
    proof -
      have "Inr c \<in> set (read_csv_chunks E n f)" using that i by simp
      then have "columns c = csv_header f" by (rule read_csv_chunks_columns)
      then show ?thesis using h by simp
    qed
    then obtain e ev where "chunk_step E a item True None None = Inl (failed e None ev)"
      using chunk_step_collision by blast
    then have "chunk_loop E a (item # items) True None None = failed e None ev" by simp
    then show ?thesis using process_all_chunked[OF True] i n_def by metis
  next
    case False
    show ?thesis
    proof (cases "read_csv E f")
      case (Inl e)
      then show ?thesis using process_all_read_error[OF False] by blast
    next
      case (Inr df)
      then have g: "arg_geoip_col a \<in> set (columns df)"
        using assms read_csv_table by blast
      show ?thesis
      proof (cases "truthy (py_or (arg_ip_col a) (autodetect_ip_col E df))")
        case True
        obtain e ev where
          "enrich_dataframe E df (the (py_or (arg_ip_col a) (autodetect_ip_col E df)))
             (arg_city_db a) (arg_asn_db a) (arg_geoip_col a) = (Inl e, ev)"
          using enrich_dataframe_collision[OF g] by blast
        then show ?thesis using process_all_failed[OF False Inr True] by blast
      next
        case no: False
        show ?thesis using process_all_unresolved[OF False Inr no] by blast
      qed
    qed
  qed
  then obtain e ev where "process_all E a f = failed e None ev" by blast
  then have "outcome (process_all E a f) = Some e" "out_file (process_all E a f) = None"
    by (simp_all add: failed_def)
  moreover have "fst (enrich_body E cr ar (table E f) ip_col (arg_geoip_col a)) =
      Inl (ValueError (''cannot insert '' @ arg_geoip_col a @ '', already exists''))"
    if "ip_col \<in> set (columns (table E f))" for cr ar ip_col
    using that assms by (simp add: enrich_body_fst)
  ultimately show ?thesis by blast
qed

theorem collision_aborts_witness:
  "arg_geoip_col sample_args \<in> set (columns (table sample_env (clean taken))) \<and>
   (\<exists>e. outcome (process_all sample_env sample_args (clean taken)) = Some e) \<and>
   out_file (process_all sample_env sample_args (clean taken)) = None \<and>
   fst (enrich_body sample_env city_rd None taken ''ip'' ''geoip'') =
     Inl (ValueError ''cannot insert geoip, already exists'')"
proof -
  have t: "table sample_env (clean taken) = taken" by (rule table_samples)
  have g: "arg_geoip_col sample_args \<in> set (columns (table sample_env (clean taken)))"
    unfolding t by (simp add: sample_args_def taken_def)
  have i: "''ip'' \<in> set (columns (table sample_env (clean taken)))"
    unfolding t by (simp add: taken_def)
  have a: "arg_geoip_col sample_args = ''geoip''" by (simp add: sample_args_def)
  have "fst (enrich_body sample_env city_rd None (table sample_env (clean taken)) ''ip''
          (arg_geoip_col sample_args)) =
        Inl (ValueError (''cannot insert '' @ arg_geoip_col sample_args @ '', already exists''))"
    using collision_aborts [OF g] i by blast
  then show ?thesis
    using g collision_aborts [OF g] by (simp add: t a)
qed

subsection \<open>Auto-detection of the address column\<close>

lemma first_common_find: "first_common cs = find name_match cs"
  by (induction cs) (simp_all add: name_match_def)

lemma count_hits_eq:
  "count_hits E vs h t =
     (h + length (filter (\<lambda>v. ip_address E (strip v) \<noteq> None) vs), t + length vs)"
  by (induction vs arbitrary: h t) simp_all

lemma column_vals_head:
  "column_vals (df_head 1000 df) c = map str_of_cell (sampled_values df c)"
  by (simp add: column_vals_def df_head_def sampled_values_def take_map)

lemma hits_sampled:
  "length (filter (\<lambda>v. ip_address E (strip v) \<noteq> None) (map str_of_cell vs)) =
   length (filter (parses E) vs)"
  by (induction vs) (simp_all add: parses_def)

lemma count_hits_sampled:
  "count_hits E (map str_of_cell (sampled_values df c)) 0 0 =
     (length (filter (parses E) (sampled_values df c)), length (sampled_values df c))"
proof -
  have "count_hits E (map str_of_cell (sampled_values df c)) 0 0 =
        (0 + length (filter (\<lambda>v. ip_address E (strip v) \<noteq> None)
                       (map str_of_cell (sampled_values df c))),
         0 + length (map str_of_cell (sampled_values df c)))"
    by (simp only: count_hits_eq)
  then show ?thesis by (simp only: hits_sampled) simp
qed

lemma first_ip_like_step:
  "first_ip_like E (df_head 1000 df) (c # cs) =
     (if qualifies E df c then Some c else first_ip_like E (df_head 1000 df) cs)"
  by (simp add: count_hits_sampled qualifies_def Let_def column_vals_head)

lemma first_ip_like_find:
  "first_ip_like E (df_head 1000 df) cs = find (qualifies E df) cs"
  by (induction cs) (simp_all only: first_ip_like.simps(1) first_ip_like_step find.simps)

lemma autodetect_find:
  "autodetect_ip_col E df =
     (case find name_match (columns df) of
        Some c \<Rightarrow> Some c
      | None \<Rightarrow> find (qualifies E df) (columns df))"
proof -
  have "columns (df_head 1000 df) = columns df" by (simp add: df_head_def)
  then show ?thesis
    by (simp add: autodetect_ip_col_def first_common_find first_ip_like_find
        split: option.splits)
qed

lemma lower_client_ip: "lower ''client_ip'' = ''client_ip''"
  by (simp add: lower_def lower_char_def)

lemma lower_user: "lower ''user'' = ''user''"
  by (simp add: lower_def lower_char_def)

lemma autodetect_example:
  "autodetect_ip_col E \<lparr>columns = [''user'', ''client_ip'', ''ts''], rows = rs\<rparr> =
     Some ''client_ip''"
  by (simp add: autodetect_ip_col_def lower_client_ip lower_user common_def)

lemma df_chunks_hd: "0 < n \<Longrightarrow> \<exists>rest. df_chunks E n f = first_batch E n f # rest"
proof (cases "csv_rows f = []")
  case True
  then show ?thesis by (simp add: df_chunks_def batches_def first_batch_def)
next
  case False
  assume "0 < n"
  then have "chunks_of n (csv_rows f) =
      take n (csv_rows f) # chunks_of n (drop n (csv_rows f))"
    using False by (subst chunks_of.simps) simp
  then show ?thesis using False by (simp add: df_chunks_def batches_def first_batch_def)
qed

lemma read_csv_chunks_clean:
  "read_csv E f = Inr df \<Longrightarrow> read_csv_chunks E n f = map Inr (df_chunks E n f)"
  by (simp add: read_csv_chunks_def)

lemma not_detected_fails:
  assumes "\<not> truthy (arg_ip_col a)" "read_csv E f = Inr df"
    "autodetect_ip_col E
       (if 0 < arg_chunksize a then first_batch E (nat (arg_chunksize a)) f else df) = None"
  shows "process_all E a f = failed no_ip_col None []"
proof (cases "0 < arg_chunksize a")
  case True
  then have n: "0 < nat (arg_chunksize a)" by simp
  obtain rest where r: "df_chunks E (nat (arg_chunksize a)) f =
      first_batch E (nat (arg_chunksize a)) f # rest"
    using df_chunks_hd[OF n] by blast
  have "\<not> truthy (resolved E a (first_batch E (nat (arg_chunksize a)) f) None)"
    using assms True by (simp add: resolved_def py_or_def truthy_def)
  then have "chunk_step E a (Inr (first_batch E (nat (arg_chunksize a)) f)) True None None =
      Inl (failed no_ip_col None [])"
    by (rule chunk_step_unresolved)
  then show ?thesis
    using process_all_chunked[OF True, of E f] read_csv_chunks_clean[OF assms(2)] r by simp
next
  case False
  have "\<not> truthy (py_or (arg_ip_col a) (autodetect_ip_col E df))"
    using assms False by (auto simp: py_or_def truthy_def split: option.splits list.splits)
  then show ?thesis using process_all_unresolved[OF False assms(2)] by simp
qed

text \<open>
  C6. Auto-detection returns the first column, in schema order, whose lowered name is in
  the list of common names, so the match ignores case and needs no row: the schema
  \<^verbatim>\<open>[user, client_ip, ts]\<close> resolves to \<^verbatim>\<open>client_ip\<close> whatever the rows are. Only when no
  name matches it returns the first column, in schema order, that has a sampled value and
  where at least half of the sampled values parse as addresses, the sampled values being
  the first 200 non-null values among the first 1000 rows. When no explicit column is
  configured and detection finds none, the run ends with the detection error before any
  row is processed and writes nothing.
\<close>

theorem autodetect_two_phases:
  "autodetect_ip_col E df =
     (case find name_match (columns df) of
        Some c \<Rightarrow> Some c
      | None \<Rightarrow> find (qualifies E df) (columns df)) \<and>
   (lower c = lower c' \<longrightarrow> name_match c = name_match c') \<and>
   autodetect_ip_col E \<lparr>columns = [''user'', ''client_ip'', ''ts''], rows = rs\<rparr> =
     Some ''client_ip'' \<and>
   (\<not> truthy (arg_ip_col a) \<and> read_csv E f = Inr df \<and>
    autodetect_ip_col E
      (if 0 < arg_chunksize a then first_batch E (nat (arg_chunksize a)) f else df) = None \<longrightarrow>
    process_all E a f = failed no_ip_col None [])"
  using autodetect_find[of E df] autodetect_example[of E rs] not_detected_fails[of a E f df]
  by (simp add: name_match_def)

lemma strips:
  "strip ''8.8.8.8'' = ''8.8.8.8''" "strip ''10.0.0.1'' = ''10.0.0.1''"
  "strip ''x'' = ''x''" "strip ''y'' = ''y''" "strip ''z'' = ''z''"
  by (simp_all add: strip_def is_space_def)

lemma parses_sample:
  "parses sample_env (CStr ''8.8.8.8'')" "parses sample_env (CStr ''10.0.0.1'')"
  "\<not> parses sample_env (CStr ''x'')" "\<not> parses sample_env (CStr ''y'')"
  "\<not> parses sample_env (CStr ''z'')"
  by (simp_all add: parses_def str_of_cell_def strips sample_env_def sample_ip_address_def)

lemma name_match_ab: "\<not> name_match ''a''" "\<not> name_match ''b''" "name_match ''Client_IP''"
  by (simp_all add: name_match_def lower_def lower_char_def common_def char_of_def
      bit_Suc_0_iff)

lemma qualifies_mixed: "\<not> qualifies sample_env mixed ''a''" "qualifies sample_env mixed ''b''"
  by (simp_all add: qualifies_def sampled_values_def mixed_def index_of_def parses_sample)

lemma qualifies_words: "\<not> qualifies sample_env words ''a''"
  by (simp add: qualifies_def sampled_values_def words_def index_of_def parses_sample)

theorem autodetect_two_phases_witness:
  "autodetect_ip_col sample_env mixed = Some ''b'' \<and>
   lower ''Client_IP'' = lower ''client_ip'' \<and> name_match ''Client_IP'' \<and>
   \<not> truthy (arg_ip_col sample_args) \<and> read_csv sample_env (clean words) = Inr words \<and>
   autodetect_ip_col sample_env words = None \<and>
   process_all sample_env sample_args (clean words) = failed no_ip_col None []"
proof -
  have l: "lower ''Client_IP'' = lower ''client_ip''"
    by (simp add: lower_def lower_char_def char_of_def bit_Suc_0_iff)
  have cm: "columns mixed = [''a'', ''b'']" by (simp add: mixed_def)
  have cw: "columns words = [''a'']" by (simp add: words_def)
  have m: "autodetect_ip_col sample_env mixed = Some ''b''"
    using autodetect_two_phases [of sample_env mixed] cm
    by (simp add: name_match_ab qualifies_mixed)
  have t: "\<not> truthy (arg_ip_col sample_args)" by (simp add: sample_args_def truthy_def)
  have c: "\<not> 0 < arg_chunksize sample_args" by (simp add: sample_args_def)
  have r: "read_csv sample_env (clean words) = Inr words" by (rule read_samples)
  have w: "autodetect_ip_col sample_env words = None"
    using autodetect_two_phases [of sample_env words] cw
    by (simp add: name_match_ab qualifies_words)
  have "process_all sample_env sample_args (clean words) = failed no_ip_col None []"
    using autodetect_two_phases [of sample_env words _ _ _ sample_args "clean words"] t c r w
    by simp
  then show ?thesis
    using l m t r w name_match_ab(3) by simp
qed

subsection \<open>Chunked mode and whole-table mode\<close>

lemma enrich_body_rows:
  "fst (enrich_body E cr ar df c g) =
     (if c \<notin> set (columns df) then Inl (KeyError c)
      else if g \<in> set (columns df)
      then Inl (ValueError (''cannot insert '' @ g @ '', already exists''))
      else Inr \<lparr>columns = new_cols (columns df) c g,
                rows = map (enrich_row E cr ar (columns df) c g) (rows df)\<rparr>)"
  by (simp add: enrich_body_fst select_cols_def enrich_row_def comp_def)

lemma enrich_dataframe_fst:
  "fst (enrich_dataframe E df c cdb adb g) =
     (case enrich_result E (columns df) c cdb adb g of
        Inl e \<Rightarrow> Inl e
      | Inr (nc, fr) \<Rightarrow> Inr \<lparr>columns = nc, rows = map fr (rows df)\<rparr>)"
proof (cases "Reader E cdb")
  case None
  then show ?thesis by (simp add: enrich_dataframe_def enrich_result_def)
next
  case (Some cr)
  show ?thesis
  proof (cases "open_asn E adb")
    case None
    then show ?thesis using Some by (simp add: enrich_dataframe_def enrich_result_def)
  next
    case (Some ar)
    have "fst (enrich_dataframe E df c cdb adb g) = fst (enrich_body E cr ar df c g)"
      using \<open>Reader E cdb = Some cr\<close> Some
      by (simp add: enrich_dataframe_def case_prod_beta)
    then show ?thesis
      using \<open>Reader E cdb = Some cr\<close> Some
      by (simp add: enrich_body_rows enrich_result_def)
  qed
qed

lemma enrich_dataframe_Inl:
  "enrich_result E (columns df) c cdb adb g = Inl e \<Longrightarrow>
   \<exists>ev. enrich_dataframe E df c cdb adb g = (Inl e, ev)"
  using enrich_dataframe_fst[of E df c cdb adb g]
  by (cases "enrich_dataframe E df c cdb adb g") simp

lemma enrich_dataframe_Inr:
  "enrich_result E (columns df) c cdb adb g = Inr (nc, fr) \<Longrightarrow>
   \<exists>ev. enrich_dataframe E df c cdb adb g = (Inr \<lparr>columns = nc, rows = map fr (rows df)\<rparr>, ev)"
  using enrich_dataframe_fst[of E df c cdb adb g]
  by (cases "enrich_dataframe E df c cdb adb g") simp

lemma keeps_resolved: "keeps a c d \<Longrightarrow> resolved E a chunk d = Some c"
  by (cases c) (auto simp: keeps_def resolved_def py_or_def split: if_splits)

lemma truthy_Some: "truthy (Some c) = (c \<noteq> [])"
  by (cases c) (simp_all add: truthy_def)

lemma keeps_next:
  "keeps a c d \<Longrightarrow> keeps a c (if truthy (arg_ip_col a) then d else resolved E a chunk d)"
  using keeps_resolved[of a c d E chunk] by (auto simp: keeps_def)

lemma chunk_loop_fixed:
  "keeps a c d \<Longrightarrow> chunk_loop E a items first d fl = fixed_loop E a c items first fl"
proof (induction items arbitrary: first d fl)
  case Nil
  then show ?case by simp
next
  case (Cons item items)
  show ?case
  proof (cases item)
    case (Inl e)
    then show ?thesis by (simp add: chunk_step_Inl)
  next
    case (Inr chunk)
    have r: "resolved E a chunk d = Some c" using Cons.prems by (rule keeps_resolved)
    have t: "truthy (resolved E a chunk d)" using r Cons.prems by (simp add: truthy_Some keeps_def)
    obtain res ev where e:
      "enrich_dataframe E chunk c (arg_city_db a) (arg_asn_db a) (arg_geoip_col a) = (res, ev)"
      by (cases "enrich_dataframe E chunk c (arg_city_db a) (arg_asn_db a) (arg_geoip_col a)")
    show ?thesis
    proof (cases res)
      case (Inl err)
      then have "chunk_step E a (Inr chunk) first d fl = Inl (failed err fl ev)"
        using chunk_step_failed[OF t, of err ev first fl] e r by simp
      then show ?thesis using Inr e Inl by simp
    next
      case out: (Inr enriched)
      define d' where "d' = (if truthy (arg_ip_col a) then d else resolved E a chunk d)"
      have k: "keeps a c d'" unfolding d'_def using Cons.prems by (rule keeps_next)
      have "chunk_step E a (Inr chunk) first d fl = Inr (d', to_csv enriched fl first, ev)"
        using chunk_step_ok[OF t, of enriched ev first fl] e r out by (simp add: d'_def)
      then show ?thesis using Inr e out Cons.IH[OF k] by simp
    qed
  qed
qed

lemma chunk_loop_first:
  "chunk_loop E a (Inr c1 # items) True None None =
     (if \<not> truthy (resolved E a c1 None) then failed no_ip_col None []
      else fixed_loop E a (the (resolved E a c1 None)) (Inr c1 # items) True None)"
proof (cases "truthy (resolved E a c1 None)")
  case False
  then show ?thesis using chunk_step_unresolved[OF False] by simp
next
  case True
  then obtain c where c: "resolved E a c1 None = Some c" "c \<noteq> []"
    by (cases "resolved E a c1 None") (auto simp: truthy_def split: list.splits)
  obtain res ev where e:
    "enrich_dataframe E c1 c (arg_city_db a) (arg_asn_db a) (arg_geoip_col a) = (res, ev)"
    by (cases "enrich_dataframe E c1 c (arg_city_db a) (arg_asn_db a) (arg_geoip_col a)")
  show ?thesis
  proof (cases res)
    case (Inl err)
    then have "chunk_step E a (Inr c1) True None None = Inl (failed err None ev)"
      using chunk_step_failed[OF True, of err ev True None] e c by simp
    then show ?thesis using True e Inl c by simp
  next
    case out: (Inr enriched)
    define d' where "d' = (if truthy (arg_ip_col a) then None else resolved E a c1 None)"
    have k: "keeps a c d'"
      using c by (auto simp: keeps_def d'_def resolved_def split: if_splits)
    have "chunk_step E a (Inr c1) True None None = Inr (d', to_csv enriched None True, ev)"
      using chunk_step_ok[OF True, of enriched ev True None] e c out by (simp add: d'_def)
    then show ?thesis using True e out c chunk_loop_fixed[OF k] by simp
  qed
qed

lemma concat_chunks_of: "0 < n \<Longrightarrow> concat (chunks_of n xs) = xs"
proof (induction n xs rule: chunks_of.induct)
  case (1 n xs)
  show ?case
  proof (cases "xs = []")
    case True
    then show ?thesis by (subst chunks_of.simps) simp
  next
    case False
    then have "concat (chunks_of n (drop n xs)) = drop n xs" using 1 by simp
    then show ?thesis using False 1(2) by (subst chunks_of.simps) simp
  qed
qed

lemma concat_batches: "0 < n \<Longrightarrow> concat (batches n xs) = xs"
  by (simp add: batches_def concat_chunks_of)

lemma stable_batch:
  "stable_types E n f \<Longrightarrow> b \<in> set (batches n (csv_rows f)) \<Longrightarrow>
   map (typed_row E b) b = map (typed_row E (csv_rows f)) b"
  by (auto simp: stable_types_def list_all_iff)

lemma df_chunks_rows:
  assumes "0 < n" "stable_types E n f"
  shows "concat (map rows (df_chunks E n f)) = rows (table E f)"
proof -
  have "map rows (df_chunks E n f) =
      map (\<lambda>b. map (typed_row E b) b) (batches n (csv_rows f))"
    by (simp add: df_chunks_def parse_rows_def comp_def)
  also have "\<dots> = map (map (typed_row E (csv_rows f))) (batches n (csv_rows f))"
    by (rule map_cong[OF refl]) (rule stable_batch[OF assms(2)])
  finally have "concat (map rows (df_chunks E n f)) =
      concat (map (map (typed_row E (csv_rows f))) (batches n (csv_rows f)))"
    by simp
  also have "\<dots> = map (typed_row E (csv_rows f)) (concat (batches n (csv_rows f)))"
    by (simp add: map_concat)
  also have "\<dots> = map (typed_row E (csv_rows f)) (csv_rows f)"
    by (simp add: concat_batches[OF assms(1)])
  finally show ?thesis by (simp add: table_def parse_rows_def)
qed

lemma first_batch_short: "length (csv_rows f) \<le> n \<Longrightarrow> first_batch E n f = table E f"
  by (simp add: first_batch_def table_def)

lemma first_batch_in: "0 < n \<Longrightarrow> xs \<noteq> [] \<Longrightarrow> take n xs \<in> set (batches n xs)"
  by (subst batches_def, subst chunks_of.simps) simp

lemma first_batch_stable:
  assumes "0 < n" "stable_types E n f"
  shows "first_batch E n f = df_head n (table E f)"
proof (cases "csv_rows f = []")
  case True
  then show ?thesis by (simp add: first_batch_def table_def parse_rows_def df_head_def)
next
  case False
  have "take n (csv_rows f) \<in> set (batches n (csv_rows f))"
    using assms(1) False by (rule first_batch_in)
  then have "map (typed_row E (take n (csv_rows f))) (take n (csv_rows f)) =
      map (typed_row E (csv_rows f)) (take n (csv_rows f))"
    by (rule stable_batch[OF assms(2)])
  then show ?thesis
    by (simp add: first_batch_def table_def parse_rows_def df_head_def take_map)
qed

lemma stable_short:
  assumes "0 < n" "length (csv_rows f) \<le> n"
  shows "stable_types E n f"
proof (cases "csv_rows f = []")
  case True
  then show ?thesis by (simp add: stable_types_def batches_def)
next
  case False
  have "chunks_of n (csv_rows f) = [csv_rows f]"
    using assms False by (subst chunks_of.simps, subst chunks_of.simps) simp
  then show ?thesis using False by (simp add: stable_types_def batches_def list_all_iff)
qed

lemma fixed_loop_fail:
  "enrich_result E (columns c1) c (arg_city_db a) (arg_asn_db a) (arg_geoip_col a) = Inl e \<Longrightarrow>
   \<exists>ev. fixed_loop E a c (Inr c1 # items) first fl = failed e fl ev"
  using enrich_dataframe_Inl[of E c1 c "arg_city_db a" "arg_asn_db a" "arg_geoip_col a" e]
  by auto

lemma fixed_loop_step:
  "enrich_dataframe E c1 c (arg_city_db a) (arg_asn_db a) (arg_geoip_col a) = (Inr out, ev) \<Longrightarrow>
   fixed_loop E a c (Inr c1 # items) first fl =
     (fixed_loop E a c items False (to_csv out fl first))
       \<lparr>trace := ev @ trace (fixed_loop E a c items False (to_csv out fl first))\<rparr>"
  by (simp add: Let_def)

lemma to_csv_lines:
  "to_csv out fl first =
     Some ((if first then [Header (columns out)] else file_lines fl) @ map Row (rows out))"
  by (simp add: to_csv_def file_lines_def)

lemma fixed_loop_file:
  assumes "enrich_result E cols c (arg_city_db a) (arg_asn_db a) (arg_geoip_col a) = Inr (nc, fr)"
    and "\<forall>x \<in> set (c1 # cs). columns x = cols"
  shows "outcome (fixed_loop E a c (Inr c1 # map Inr cs) first fl) = None \<and>
         out_file (fixed_loop E a c (Inr c1 # map Inr cs) first fl) =
           Some ((if first then [Header nc] else file_lines fl) @
                 map Row (map fr (rows c1 @ concat (map rows cs))))"
  using assms(2)
proof (induction cs arbitrary: c1 first fl)
  case Nil
  then have "columns c1 = cols" by simp
  then have "enrich_result E (columns c1) c (arg_city_db a) (arg_asn_db a) (arg_geoip_col a) =
      Inr (nc, fr)"
    using assms(1) by simp
  from enrich_dataframe_Inr[OF this] obtain ev where e:
    "enrich_dataframe E c1 c (arg_city_db a) (arg_asn_db a) (arg_geoip_col a) =
       (Inr \<lparr>columns = nc, rows = map fr (rows c1)\<rparr>, ev)"
    by blast
  show ?case
    unfolding fixed_loop_step[OF e] to_csv_lines by simp
next
  case (Cons c2 cs)
  have "columns c1 = cols" using Cons.prems by simp
  then have "enrich_result E (columns c1) c (arg_city_db a) (arg_asn_db a) (arg_geoip_col a) =
      Inr (nc, fr)"
    using assms(1) by simp
  from enrich_dataframe_Inr[OF this] obtain ev where e:
    "enrich_dataframe E c1 c (arg_city_db a) (arg_asn_db a) (arg_geoip_col a) =
       (Inr \<lparr>columns = nc, rows = map fr (rows c1)\<rparr>, ev)"
    by blast
  define fl' where "fl' = to_csv \<lparr>columns = nc, rows = map fr (rows c1)\<rparr> fl first"
  have f: "file_lines fl' = (if first then [Header nc] else file_lines fl) @ map Row (map fr (rows c1))"
    unfolding fl'_def to_csv_lines by (simp add: file_lines_def)
  have p: "\<forall>x \<in> set (c2 # cs). columns x = cols" using Cons.prems by simp
  have ih: "outcome (fixed_loop E a c (Inr c2 # map Inr cs) False fl') = None \<and>
         out_file (fixed_loop E a c (Inr c2 # map Inr cs) False fl') =
           Some ((if False then [Header nc] else file_lines fl') @
                 map Row (map fr (rows c2 @ concat (map rows cs))))"
    by (rule Cons.IH[OF p])
  have s: "fixed_loop E a c (Inr c1 # map Inr (c2 # cs)) first fl =
        (fixed_loop E a c (Inr c2 # map Inr cs) False fl')
          \<lparr>trace := ev @ trace (fixed_loop E a c (Inr c2 # map Inr cs) False fl')\<rparr>"
    using fixed_loop_step[OF e, of "map Inr (c2 # cs)" first fl] by (simp only: fl'_def list.map)
  show ?case unfolding s using ih by (simp add: f)
qed

lemma fixed_loop_final:
  assumes "\<forall>x \<in> set (c1 # cs). columns x = cols"
  shows "(outcome (fixed_loop E a c (Inr c1 # map Inr cs) True None),
          out_file (fixed_loop E a c (Inr c1 # map Inr cs) True None)) =
         final E a cols c (rows c1 @ concat (map rows cs))"
proof (cases "enrich_result E cols c (arg_city_db a) (arg_asn_db a) (arg_geoip_col a)")
  case (Inl e)
  have "columns c1 = cols" using assms by simp
  then have "enrich_result E (columns c1) c (arg_city_db a) (arg_asn_db a) (arg_geoip_col a) = Inl e"
    using Inl by simp
  from fixed_loop_fail[OF this] obtain ev where
    "fixed_loop E a c (Inr c1 # map Inr cs) True None = failed e None ev" by blast
  then show ?thesis using Inl by (simp add: final_def failed_def)
next
  case (Inr p)
  obtain nc fr where p: "p = (nc, fr)" by (cases p)
  show ?thesis
    using fixed_loop_file[OF Inr[unfolded p] assms, of True None] Inr p
    by (simp add: final_def)
qed

lemma fixed_loop_args:
  assumes "arg_city_db a' = arg_city_db a" "arg_asn_db a' = arg_asn_db a"
    "arg_geoip_col a' = arg_geoip_col a"
  shows "fixed_loop E a' c items first fl = fixed_loop E a c items first fl"
proof (induction items arbitrary: first fl)
  case Nil
  show ?case by simp
next
  case (Cons item items)
  show ?case
  proof (cases item)
    case (Inl e)
    then show ?thesis by simp
  next
    case (Inr chunk)
    then show ?thesis
      by (cases "enrich_dataframe E chunk c (arg_city_db a) (arg_asn_db a) (arg_geoip_col a)")
         (simp add: assms Cons.IH split: sum.splits)
  qed
qed

lemma chunked_as_fixed:
  assumes "0 < arg_chunksize a" "read_csv E f = Inr df"
  shows "process_all E a f =
     (if \<not> truthy (resolved E a (first_batch E (nat (arg_chunksize a)) f) None)
      then failed no_ip_col None []
      else fixed_loop E a (the (resolved E a (first_batch E (nat (arg_chunksize a)) f) None))
             (map Inr (df_chunks E (nat (arg_chunksize a)) f)) True None)"
proof -
  have n: "0 < nat (arg_chunksize a)" using assms(1) by simp
  obtain rest where r:
    "df_chunks E (nat (arg_chunksize a)) f = first_batch E (nat (arg_chunksize a)) f # rest"
    using df_chunks_hd[OF n] by blast
  have "process_all E a f =
      chunk_loop E a (Inr (first_batch E (nat (arg_chunksize a)) f) # map Inr rest)
        True None None"
    using process_all_chunked[OF assms(1), of E f] read_csv_chunks_clean[OF assms(2)] r by simp
  then show ?thesis unfolding chunk_loop_first using r by simp
qed

lemma whole_as_fixed:
  assumes "\<not> 0 < arg_chunksize a" "read_csv E f = Inr df"
  shows "process_all E a f =
     (if \<not> truthy (py_or (arg_ip_col a) (autodetect_ip_col E df)) then failed no_ip_col None []
      else fixed_loop E a (the (py_or (arg_ip_col a) (autodetect_ip_col E df))) [Inr df] True None)"
proof (cases "truthy (py_or (arg_ip_col a) (autodetect_ip_col E df))")
  case False
  then show ?thesis using process_all_unresolved[OF assms False] by simp
next
  case True
  define c where "c = the (py_or (arg_ip_col a) (autodetect_ip_col E df))"
  obtain res ev where e:
    "enrich_dataframe E df c (arg_city_db a) (arg_asn_db a) (arg_geoip_col a) = (res, ev)"
    by (cases "enrich_dataframe E df c (arg_city_db a) (arg_asn_db a) (arg_geoip_col a)")
  show ?thesis
  proof (cases res)
    case (Inl err)
    then show ?thesis
      using process_all_failed[OF assms True, of err ev] e True by (simp add: c_def)
  next
    case (Inr out)
    then show ?thesis
      using process_all_ok[OF assms True, of out ev] e True by (simp add: c_def)
  qed
qed

lemma same_ip_col_sufficient:
  assumes "0 < n"
    and "truthy (arg_ip_col a) \<or> find name_match (csv_header f) \<noteq> None \<or>
         length (csv_rows f) \<le> n \<or> (1000 \<le> n \<and> stable_types E n f)"
  shows "same_ip_col E a n f"
proof -
  have 1: "autodetect_ip_col E (first_batch E n f) = autodetect_ip_col E (table E f)"
    if "find name_match (csv_header f) \<noteq> None"
    using that by (auto simp: autodetect_find first_batch_def table_def parse_rows_def)
  have 2: "autodetect_ip_col E (first_batch E n f) = autodetect_ip_col E (table E f)"
    if "length (csv_rows f) \<le> n"
    using that by (simp add: first_batch_short)
  have 3: "autodetect_ip_col E (first_batch E n f) = autodetect_ip_col E (table E f)"
    if "1000 \<le> n" "stable_types E n f"
  proof -
    have fb: "first_batch E n f = df_head n (table E f)"
      using assms(1) that(2) by (rule first_batch_stable)
    have h: "df_head 1000 (df_head n (table E f)) = df_head 1000 (table E f)"
      using that(1) by (simp add: df_head_def min_def)
    have c: "columns (df_head n (table E f)) = columns (table E f)" by (simp add: df_head_def)
    show ?thesis unfolding fb autodetect_ip_col_def h c ..
  qed
  show ?thesis using assms(2) 1 2 3 by (auto simp: same_ip_col_def)
qed

lemma resolved_same:
  "same_ip_col E a n f \<Longrightarrow>
   resolved E a (first_batch E n f) None =
     py_or (arg_ip_col a) (autodetect_ip_col E (table E f))"
  by (auto simp: same_ip_col_def resolved_def py_or_def truthy_def split: option.splits list.splits)

lemma chunked_final:
  assumes "0 < arg_chunksize a" "read_csv E f = Inr df"
    "truthy (resolved E a (first_batch E (nat (arg_chunksize a)) f) None)"
  shows "(outcome (process_all E a f), out_file (process_all E a f)) =
         final E a (csv_header f)
           (the (resolved E a (first_batch E (nat (arg_chunksize a)) f) None))
           (concat (map rows (df_chunks E (nat (arg_chunksize a)) f)))"
proof -
  define n where "n = nat (arg_chunksize a)"
  have n: "0 < n" using assms(1) by (simp add: n_def)
  obtain rest where r: "df_chunks E n f = first_batch E n f # rest"
    using df_chunks_hd[OF n] by blast
  have cols: "\<forall>x \<in> set (first_batch E n f # rest). columns x = csv_header f"
  proof
    fix x assume "x \<in> set (first_batch E n f # rest)"
    then have "x \<in> set (df_chunks E n f)" by (simp only: r)
    then show "columns x = csv_header f" by (rule df_chunks_columns)
  qed
  have rws: "rows (first_batch E n f) @ concat (map rows rest) =
      concat (map rows (df_chunks E n f))"
    by (simp add: r)
  have "process_all E a f =
      fixed_loop E a (the (resolved E a (first_batch E n f) None))
        (Inr (first_batch E n f) # map Inr rest) True None"
    using chunked_as_fixed[OF assms(1,2)] assms(3) r by (simp add: n_def)
  then show ?thesis
    using fixed_loop_final[OF cols, of E a "the (resolved E a (first_batch E n f) None)"] rws
    by (simp add: n_def)
qed

lemma whole_final:
  assumes "\<not> 0 < arg_chunksize a" "read_csv E f = Inr df"
    "truthy (py_or (arg_ip_col a) (autodetect_ip_col E df))"
  shows "(outcome (process_all E a f), out_file (process_all E a f)) =
         final E a (columns df) (the (py_or (arg_ip_col a) (autodetect_ip_col E df))) (rows df)"
proof -
  have "process_all E a f =
      fixed_loop E a (the (py_or (arg_ip_col a) (autodetect_ip_col E df)))
        (Inr df # map Inr []) True None"
    using whole_as_fixed[OF assms(1,2)] assms(3) by simp
  then show ?thesis
    using fixed_loop_final[of df "[]" "columns df" E a
        "the (py_or (arg_ip_col a) (autodetect_ip_col E df))"]
    by simp
qed

lemma final_args:
  "final E (a\<lparr>arg_chunksize := k\<rparr>) cols c rs = final E a cols c rs"
  by (simp add: final_def)

lemma final_header:
  "snd (final E a cols c rs) = Some ls \<Longrightarrow> \<exists>h body. ls = Header h # map Row body"
proof (cases "enrich_result E cols c (arg_city_db a) (arg_asn_db a) (arg_geoip_col a)")
  case (Inl e)
  assume "snd (final E a cols c rs) = Some ls"
  then show ?thesis using Inl by (simp add: final_def)
next
  case (Inr p)
  assume "snd (final E a cols c rs) = Some ls"
  then have "ls = Header (fst p) # map Row (map (snd p) rs)"
    using Inr by (simp add: final_def case_prod_beta)
  then show ?thesis by blast
qed

text \<open>
  C2 (as amended). For a file that reads cleanly and any positive chunk size, chunked mode
  resolves the address column from the first batch alone and runs every batch with that
  column: the run is the loop with the column fixed. Both modes end the same way and
  write the same file, the same lines in the same order, whenever two conditions hold:
  the reader gives every row in its batch the cells it gives it in the whole table
  (column types are inferred from the rows read together), and the column resolved from
  the first batch is the one whole-table mode resolves. The second condition holds when
  the column is configured, when a column name is a common one, when the chunk size is at
  least the row count, and, given the first condition, when the chunk size is at least
  1000; the first condition holds when the chunk size is at least the row count. A file
  that chunked mode writes is one header line followed by rows only.
\<close>

theorem chunked_equals_whole:
  assumes "0 < arg_chunksize a" "read_csv E f = Inr df"
  shows
    "process_all E a f =
       (if \<not> truthy (resolved E a (first_batch E (nat (arg_chunksize a)) f) None)
        then failed no_ip_col None []
        else fixed_loop E a (the (resolved E a (first_batch E (nat (arg_chunksize a)) f) None))
               (map Inr (df_chunks E (nat (arg_chunksize a)) f)) True None) \<and>
     (stable_types E (nat (arg_chunksize a)) f \<and> same_ip_col E a (nat (arg_chunksize a)) f \<longrightarrow>
        out_file (process_all E a f) = out_file (process_all E (a\<lparr>arg_chunksize := 0\<rparr>) f) \<and>
        outcome (process_all E a f) = outcome (process_all E (a\<lparr>arg_chunksize := 0\<rparr>) f)) \<and>
     (truthy (arg_ip_col a) \<or> find name_match (csv_header f) \<noteq> None \<or>
      length (csv_rows f) \<le> nat (arg_chunksize a) \<or>
      (1000 \<le> nat (arg_chunksize a) \<and> stable_types E (nat (arg_chunksize a)) f) \<longrightarrow>
        same_ip_col E a (nat (arg_chunksize a)) f) \<and>
     (length (csv_rows f) \<le> nat (arg_chunksize a) \<longrightarrow>
        stable_types E (nat (arg_chunksize a)) f) \<and>
     (\<forall>ls. out_file (process_all E a f) = Some ls \<longrightarrow> (\<exists>h body. ls = Header h # map Row body))"
proof -
  define n where "n = nat (arg_chunksize a)"
  define w where "w = a\<lparr>arg_chunksize := 0\<rparr>"
  define rc where "rc = resolved E a (first_batch E n f) None"
  have n: "0 < n" using assms(1) by (simp add: n_def)
  have wz: "\<not> 0 < arg_chunksize w" by (simp add: w_def)
  have wi: "arg_ip_col w = arg_ip_col a" by (simp add: w_def)
  have df: "df = table E f" using assms(2) by (rule read_csv_table)
  have cdf: "columns df = csv_header f" by (simp add: df table_columns)
  have same: "out_file (process_all E a f) = out_file (process_all E w f) \<and>
        outcome (process_all E a f) = outcome (process_all E w f)"
    if st: "stable_types E n f" and s: "same_ip_col E a n f"
  proof -
    have e: "rc = py_or (arg_ip_col a) (autodetect_ip_col E df)"
      unfolding rc_def df using s by (rule resolved_same)
    have rws: "concat (map rows (df_chunks E n f)) = rows df"
      unfolding df using n st by (rule df_chunks_rows)
    show ?thesis
    proof (cases "truthy rc")
      case False
      have "process_all E a f = failed no_ip_col None []"
        using chunked_as_fixed[OF assms] False by (simp add: rc_def n_def)
      moreover have "process_all E w f = failed no_ip_col None []"
        using process_all_unresolved[OF wz assms(2)] False e wi by simp
      ultimately show ?thesis by simp
    next
      case True
      have p1: "(outcome (process_all E a f), out_file (process_all E a f)) =
            final E a (columns df) (the rc) (rows df)"
        using chunked_final[OF assms] True rws by (simp add: rc_def n_def cdf)
      have p2: "(outcome (process_all E w f), out_file (process_all E w f)) =
            final E a (columns df) (the rc) (rows df)"
        using whole_final[OF wz assms(2)] True e wi by (simp add: w_def final_args)
      have "(outcome (process_all E a f), out_file (process_all E a f)) =
            (outcome (process_all E w f), out_file (process_all E w f))"
        by (rule trans[OF p1 p2[symmetric]])
      then show ?thesis by (simp only: prod.inject)
    qed
  qed
  have hdr: "\<exists>h body. ls = Header h # map Row body"
    if o: "out_file (process_all E a f) = Some ls" for ls
  proof (cases "truthy rc")
    case False
    then have "process_all E a f = failed no_ip_col None []"
      using chunked_as_fixed[OF assms] by (simp add: rc_def n_def)
    then show ?thesis using o by (simp add: failed_def)
  next
    case True
    define rs where "rs = concat (map rows (df_chunks E n f))"
    have p: "(outcome (process_all E a f), out_file (process_all E a f)) =
          final E a (csv_header f) (the rc) rs"
      using chunked_final[OF assms] True by (simp add: rc_def n_def rs_def)
    have "snd (outcome (process_all E a f), out_file (process_all E a f)) =
          snd (final E a (csv_header f) (the rc) rs)"
      by (rule arg_cong[OF p])
    then have "snd (final E a (csv_header f) (the rc) rs) = out_file (process_all E a f)"
      by (simp only: snd_conv)
    then have "snd (final E a (csv_header f) (the rc) rs) = Some ls"
      by (simp only: o)
    then show ?thesis by (rule final_header)
  qed
  have suff: "truthy (arg_ip_col a) \<or> find name_match (csv_header f) \<noteq> None \<or>
      length (csv_rows f) \<le> n \<or> (1000 \<le> n \<and> stable_types E n f) \<longrightarrow> same_ip_col E a n f"
    using same_ip_col_sufficient[OF n, of a f E] by (rule impI)
  have short: "length (csv_rows f) \<le> n \<longrightarrow> stable_types E n f"
    using stable_short[OF n, of f E] by (rule impI)
  have "\<forall>ls. out_file (process_all E a f) = Some ls \<longrightarrow> (\<exists>h body. ls = Header h # map Row body)"
    using hdr by (intro allI impI)
  moreover have "stable_types E n f \<and> same_ip_col E a n f \<longrightarrow>
        out_file (process_all E a f) = out_file (process_all E w f) \<and>
        outcome (process_all E a f) = outcome (process_all E w f)"
    using same by blast
  ultimately show ?thesis
    using chunked_as_fixed[OF assms] suff short
    unfolding n_def w_def by (intro conjI)
qed

lemma strip_public: "strip ''8.8.8.8'' = ''8.8.8.8''"
  by (simp add: strip_def is_space_def)

lemma lookup_public:
  "lookup city_rd None ''8.8.8.8'' = (us_result, [Query CityDb ''8.8.8.8''])"
  by (simp add: lookup_def city_fields_def asn_fields_def city_rd_def us_resp_def region_of_def
      us_result_def)

lemma format_us: "format_geoip us_result = ''US|||37.751000|-97.822000||''"
  using fmt_us_lat fmt_us_lon
  by (simp add: format_geoip_def parts_def us_result_def or_empty_def fmt_coord_def fmt_asn_def)

lemma geo_cell_public:
  "geo_cell sample_env city_rd None (CStr ''8.8.8.8'') = CStr ''US|||37.751000|-97.822000||''"
  by (simp add: geo_cell_def astype_str_def str_of_cell_def compute_def strip_public
      is_public_ip_def sample_env_def sample_ip_address_def public_addr_def lookup_public
      format_us)

lemma geo_cell_invalid: "geo_cell sample_env city_rd None (CStr ''not-an-ip'') = CStr []"
  by (simp add: geo_cell_def astype_str_def str_of_cell_def compute_bad)

lemma geo_cell_empty: "geo_cell sample_env city_rd None (CStr []) = CStr []"
  by (simp add: geo_cell_def astype_str_def str_of_cell_def compute_def strip_Nil)

lemma enrich_result_sample:
  "c \<in> set cols \<Longrightarrow> ''geoip'' \<notin> set cols \<Longrightarrow>
   enrich_result sample_env cols c (arg_city_db sample_args) (arg_asn_db sample_args)
     (arg_geoip_col sample_args) =
   Inr (new_cols cols c ''geoip'', enrich_row sample_env city_rd None cols c ''geoip'')"
  by (simp add: enrich_result_def sample_env_def sample_args_def open_asn_def truthy_def)

lemma whole_four:
  "process_all sample_env sample_args (clean four) =
     \<lparr>outcome = None,
      out_file = Some [Header [''ip'', ''geoip''],
                       Row [CStr ''8.8.8.8'', CStr ''US|||37.751000|-97.822000||''],
                       Row [CStr ''10.0.0.1'', CStr []],
                       Row [CStr ''not-an-ip'', CStr []],
                       Row [CStr [], CStr []]],
      trace = [Acquire CityDb, Query CityDb ''8.8.8.8'', Release CityDb]\<rparr>"
proof -
  have r: "Reader sample_env ''city.mmdb'' = Some city_rd" by (simp add: sample_env_def)
  have c1: "compute sample_env city_rd None (CStr ''8.8.8.8'') =
      (''US|||37.751000|-97.822000||'', [Query CityDb ''8.8.8.8''])"
    by (simp add: compute_def strip_public is_public_ip_def sample_env_def
        sample_ip_address_def public_addr_def lookup_public format_us)
  have c2: "compute sample_env city_rd None (CStr ''10.0.0.1'') = ([], [])"
    by (simp add: compute_def strip_private is_public_ip_def sample_env_def
        sample_ip_address_def private_addr_def)
  have c4: "compute sample_env city_rd None (CStr []) = ([], [])"
    by (simp add: compute_def strip_Nil)
  have b: "enrich_body sample_env city_rd None four ''ip'' ''geoip'' =
     (Inr \<lparr>columns = [''ip'', ''geoip''],
           rows = [[CStr ''8.8.8.8'', CStr ''US|||37.751000|-97.822000||''],
                   [CStr ''10.0.0.1'', CStr []], [CStr ''not-an-ip'', CStr []],
                   [CStr [], CStr []]]\<rparr>,
      [Query CityDb ''8.8.8.8''])"
    by (simp add: enrich_body_def four_def index_of_def astype_str_def str_of_cell_def
        c1 c2 c4 compute_bad df_insert_def insert_at_def select_cols_def)
  have e: "enrich_dataframe sample_env four ''ip'' ''city.mmdb'' None ''geoip'' =
     (Inr \<lparr>columns = [''ip'', ''geoip''],
           rows = [[CStr ''8.8.8.8'', CStr ''US|||37.751000|-97.822000||''],
                   [CStr ''10.0.0.1'', CStr []], [CStr ''not-an-ip'', CStr []],
                   [CStr [], CStr []]]\<rparr>,
      [Acquire CityDb, Query CityDb ''8.8.8.8'', Release CityDb])"
    by (simp add: enrich_dataframe_def r open_asn_def truthy_def b)
  have a: "autodetect_ip_col sample_env four = Some ''ip''"
    by (simp add: autodetect_ip_col_def four_def lower_def lower_char_def common_def)
  show ?thesis
    by (simp add: process_all_def sample_args_def read_samples py_or_def truthy_def
        a e to_csv_def)
qed

theorem chunked_equals_whole_witness:
  "0 < arg_chunksize (sample_args\<lparr>arg_chunksize := 2\<rparr>) \<and>
   read_csv sample_env (clean four) = Inr four \<and>
   stable_types sample_env 2 (clean four) \<and>
   same_ip_col sample_env (sample_args\<lparr>arg_chunksize := 2\<rparr>) 2 (clean four) \<and>
   \<not> length (csv_rows (clean four)) \<le> 2 \<and>
   out_file (process_all sample_env (sample_args\<lparr>arg_chunksize := 2\<rparr>) (clean four)) =
     Some [Header [''ip'', ''geoip''],
           Row [CStr ''8.8.8.8'', CStr ''US|||37.751000|-97.822000||''],
           Row [CStr ''10.0.0.1'', CStr []],
           Row [CStr ''not-an-ip'', CStr []],
           Row [CStr [], CStr []]] \<and>
   outcome (process_all sample_env (sample_args\<lparr>arg_chunksize := 2\<rparr>) (clean four)) = None \<and>
   stable_types typing_env 2 ids"
proof -
  define a where "a = sample_args\<lparr>arg_chunksize := 2\<rparr>"
  have p: "0 < arg_chunksize a" by (simp add: a_def)
  have n: "nat (arg_chunksize a) = 2" by (simp add: a_def)
  have r: "read_csv sample_env (clean four) = Inr four" by (rule read_samples)
  have ri: "read_csv typing_env ids = Inr (table typing_env ids)"
    by (simp add: read_csv_def ids_def)
  have z: "a\<lparr>arg_chunksize := 0\<rparr> = sample_args" by (simp add: a_def sample_args_def)
  have m: "find name_match (csv_header (clean four)) \<noteq> None"
    by (simp add: clean_def four_def name_match_def lower_def lower_char_def common_def)
  have l: "\<not> length (csv_rows (clean four)) \<le> 2" by (simp add: clean_def four_def)
  have li: "length (csv_rows ids) \<le> nat (arg_chunksize a)" by (simp add: ids_def a_def)
  have st: "stable_types sample_env (nat (arg_chunksize a)) (clean four)"
    by (simp add: stable_types_def sample_env_def list_all_iff)
  have sti: "stable_types typing_env (nat (arg_chunksize a)) ids"
    using chunked_equals_whole [OF p ri] li by blast
  have s: "same_ip_col sample_env a (nat (arg_chunksize a)) (clean four)"
    using chunked_equals_whole [OF p r] m by blast
  have "out_file (process_all sample_env a (clean four)) =
          out_file (process_all sample_env (a\<lparr>arg_chunksize := 0\<rparr>) (clean four)) \<and>
        outcome (process_all sample_env a (clean four)) =
          outcome (process_all sample_env (a\<lparr>arg_chunksize := 0\<rparr>) (clean four))"
    using chunked_equals_whole [OF p r] s st by blast
  then have "out_file (process_all sample_env a (clean four)) =
          out_file (process_all sample_env sample_args (clean four)) \<and>
        outcome (process_all sample_env a (clean four)) =
          outcome (process_all sample_env sample_args (clean four))"
    by (simp only: z)
  moreover have "same_ip_col sample_env a 2 (clean four)" using s by (simp only: n)
  moreover have "stable_types sample_env 2 (clean four)" using st by (simp only: n)
  moreover have "stable_types typing_env 2 ids" using sti by (simp only: n)
  ultimately show ?thesis
    using p r l by (simp add: whole_four a_def[symmetric])
qed

lemma first_mixed:
  "first_batch sample_env (Suc 0) (clean mixed) =
     \<lparr>columns = [''a'', ''b''], rows = [[CStr ''8.8.8.8'', CStr ''x'']]\<rparr>"
  by (simp add: first_batch_def parse_rows_def clean_def mixed_def sample_env_def
      str_of_cell_def)

lemma qualifies_first_mixed:
  "qualifies sample_env (first_batch sample_env (Suc 0) (clean mixed)) ''a''"
  by (simp add: first_mixed qualifies_def sampled_values_def index_of_def parses_sample)

lemma stable_sample: "stable_types sample_env n f"
  by (simp add: stable_types_def sample_env_def list_all_iff)

lemma is_digit_samples:
  "is_digit CHR ''0''" "is_digit CHR ''7''" "\<not> is_digit CHR ''a''" "\<not> is_digit CHR ''.''"
  by (simp_all add: is_digit_def)

lemma infer_first:
  "infer_row [[''007'', ''10.0.0.1'']] [''007'', ''10.0.0.1''] = [CInt 7, CStr ''10.0.0.1'']"
proof -
  have u: "[0..<length [''007'', ''10.0.0.1'']] = [0, Suc 0]" by (simp add: upt_rec)
  show ?thesis
    unfolding infer_row_def u
    by (simp add: all_digits_def is_digit_samples int_of_digits_def)
qed

lemma infer_second:
  "infer_row [[''abc'', ''10.0.0.1'']] [''abc'', ''10.0.0.1''] = [CStr ''abc'', CStr ''10.0.0.1'']"
proof -
  have u: "[0..<length [''abc'', ''10.0.0.1'']] = [0, Suc 0]" by (simp add: upt_rec)
  show ?thesis
    unfolding infer_row_def u
    by (simp add: all_digits_def is_digit_samples)
qed

lemma infer_whole:
  "infer_row (csv_rows ids) [x, ''10.0.0.1''] = [CStr x, CStr ''10.0.0.1'']"
proof -
  have u: "[0..<length [x, ''10.0.0.1'']] = [0, Suc 0]" by (simp add: upt_rec)
  show ?thesis
    unfolding infer_row_def u
    by (simp add: ids_def all_digits_def is_digit_samples)
qed

lemma batches_ids:
  "batches (Suc 0) (csv_rows ids) = [[[''007'', ''10.0.0.1'']], [[''abc'', ''10.0.0.1'']]]"
  by (simp add: batches_def ids_def chunks_of.simps)

lemma chunks_ids:
  "concat (map rows (df_chunks typing_env (Suc 0) ids)) =
     [[CInt 7, CStr ''10.0.0.1''], [CStr ''abc'', CStr ''10.0.0.1'']]"
  by (simp add: df_chunks_def batches_ids parse_rows_def typing_env_def infer_first infer_second)

lemma table_ids:
  "table typing_env ids =
     \<lparr>columns = [''id'', ''ip''],
      rows = [[CStr ''007'', CStr ''10.0.0.1''], [CStr ''abc'', CStr ''10.0.0.1'']]\<rparr>"
proof -
  have "rows (table typing_env ids) =
      [infer_row (csv_rows ids) [''007'', ''10.0.0.1''],
       infer_row (csv_rows ids) [''abc'', ''10.0.0.1'']]"
    by (simp add: table_def parse_rows_def typing_env_def ids_def)
  then have "rows (table typing_env ids) =
      [[CStr ''007'', CStr ''10.0.0.1''], [CStr ''abc'', CStr ''10.0.0.1'']]"
    by (simp only: infer_whole)
  moreover have "columns (table typing_env ids) = [''id'', ''ip'']"
    by (simp add: table_columns ids_def)
  ultimately show ?thesis by (cases "table typing_env ids") simp
qed

lemma enrich_result_typing:
  "enrich_result typing_env [''id'', ''ip''] ''ip'' (arg_city_db ip_args) (arg_asn_db ip_args)
     (arg_geoip_col ip_args) =
   Inr ([''id'', ''ip'', ''geoip''],
        enrich_row typing_env city_rd None [''id'', ''ip''] ''ip'' ''geoip'')"
  by (simp add: enrich_result_def typing_env_def sample_env_def ip_args_def sample_args_def
      open_asn_def truthy_def new_cols_def index_of_def)

lemma enrich_row_typing:
  "enrich_row typing_env city_rd None [''id'', ''ip''] ''ip'' ''geoip'' [x, CStr ''10.0.0.1''] =
     [x, CStr ''10.0.0.1'', CStr []]"
proof -
  have c: "compute typing_env city_rd None (CStr ''10.0.0.1'') = ([], [])"
    by (simp add: compute_def strip_private is_public_ip_def typing_env_def sample_env_def
        sample_ip_address_def private_addr_def)
  show ?thesis
    by (simp add: enrich_row_def new_cols_def index_of_def insert_at_def geo_cell_def
        astype_str_def str_of_cell_def c)
qed

lemma final_typing:
  "final typing_env (ip_args\<lparr>arg_chunksize := k\<rparr>) [''id'', ''ip''] ''ip''
     [[x, CStr ''10.0.0.1''], [y, CStr ''10.0.0.1'']] =
   (None, Some [Header [''id'', ''ip'', ''geoip''],
                Row [x, CStr ''10.0.0.1'', CStr []], Row [y, CStr ''10.0.0.1'', CStr []]])"
  by (simp add: final_args final_def enrich_result_typing enrich_row_typing)

text \<open>
  Two inputs on which the modes differ. With chunk size 1 and no column name to go by,
  the first batch of \<open>mixed\<close> makes column \<^verbatim>\<open>a\<close> look like addresses while the whole table
  picks \<^verbatim>\<open>b\<close>: the two modes write different files. With the column configured and a
  reader that infers integers, the file \<open>ids\<close> read in batches of one row has \<^verbatim>\<open>007\<close>
  alone in its batch, read as the number 7, while the whole table keeps the text.
\<close>

theorem chunked_differs_counterexample:
  "out_file (process_all sample_env (sample_args\<lparr>arg_chunksize := 1\<rparr>) (clean mixed)) \<noteq>
   out_file (process_all sample_env (sample_args\<lparr>arg_chunksize := 0\<rparr>) (clean mixed)) \<and>
   out_file (process_all typing_env (ip_args\<lparr>arg_chunksize := 1\<rparr>) ids) =
     Some [Header [''id'', ''ip'', ''geoip''],
           Row [CInt 7, CStr ''10.0.0.1'', CStr []],
           Row [CStr ''abc'', CStr ''10.0.0.1'', CStr []]] \<and>
   out_file (process_all typing_env (ip_args\<lparr>arg_chunksize := 0\<rparr>) ids) =
     Some [Header [''id'', ''ip'', ''geoip''],
           Row [CStr ''007'', CStr ''10.0.0.1'', CStr []],
           Row [CStr ''abc'', CStr ''10.0.0.1'', CStr []]] \<and>
   str_of_cell (CInt 7) \<noteq> str_of_cell (CStr ''007'')"
proof -
  define a where "a = sample_args\<lparr>arg_chunksize := 1\<rparr>"
  have p: "0 < arg_chunksize a" by (simp add: a_def)
  have n: "nat (arg_chunksize a) = Suc 0" by (simp add: a_def)
  have z: "sample_args\<lparr>arg_chunksize := 0\<rparr> = sample_args" by (simp add: sample_args_def)
  have wz: "\<not> 0 < arg_chunksize sample_args" by (simp add: sample_args_def)
  have r: "read_csv sample_env (clean mixed) = Inr mixed" by (rule read_samples)
  have cm: "columns mixed = [''a'', ''b'']" by (simp add: mixed_def)
  have hm: "csv_header (clean mixed) = [''a'', ''b'']" by (simp add: clean_def mixed_def)
  have ch: "columns (first_batch sample_env (Suc 0) (clean mixed)) = [''a'', ''b'']"
    by (simp add: first_mixed)
  have d1: "autodetect_ip_col sample_env (first_batch sample_env (Suc 0) (clean mixed)) =
      Some ''a''"
    by (simp add: autodetect_find ch name_match_ab qualifies_first_mixed)
  have dw: "autodetect_ip_col sample_env mixed = Some ''b''"
    by (simp add: autodetect_find cm name_match_ab qualifies_mixed)
  have ni: "arg_ip_col a = None" "arg_ip_col sample_args = None"
    by (simp_all add: a_def sample_args_def)
  have rc: "resolved sample_env a (first_batch sample_env (Suc 0) (clean mixed)) None =
      Some ''a''"
    by (simp add: resolved_def ni truthy_def py_or_def d1)
  have rw: "py_or (arg_ip_col sample_args) (autodetect_ip_col sample_env mixed) = Some ''b''"
    by (simp add: ni py_or_def dw)
  have fa: "final sample_env a [''a'', ''b''] ''a'' rs =
      (None, Some (Header [''a'', ''geoip'', ''b''] #
                   map Row (map (enrich_row sample_env city_rd None [''a'', ''b''] ''a'' ''geoip'') rs)))"
    for rs
    using enrich_result_sample[of "''a''" "[''a'', ''b'']"]
    by (simp add: final_def a_def new_cols_def index_of_def)
  have fb: "final sample_env sample_args [''a'', ''b''] ''b'' rs =
      (None, Some (Header [''a'', ''b'', ''geoip''] #
                   map Row (map (enrich_row sample_env city_rd None [''a'', ''b''] ''b'' ''geoip'') rs)))"
    for rs
    using enrich_result_sample[of "''b''" "[''a'', ''b'']"]
    by (simp add: final_def new_cols_def index_of_def)
  have "\<exists>rs. out_file (process_all sample_env a (clean mixed)) =
      Some (Header [''a'', ''geoip'', ''b''] # rs)"
    using chunked_final[OF p r] by (simp add: n rc truthy_def hm fa)
  moreover have "\<exists>rs. out_file (process_all sample_env sample_args (clean mixed)) =
      Some (Header [''a'', ''b'', ''geoip''] # rs)"
    using whole_final[OF wz r] by (simp add: rw truthy_def cm fb)
  ultimately have m: "out_file (process_all sample_env a (clean mixed)) \<noteq>
      out_file (process_all sample_env sample_args (clean mixed))"
    by auto
  define b where "b = ip_args\<lparr>arg_chunksize := 1\<rparr>"
  define w where "w = ip_args\<lparr>arg_chunksize := 0\<rparr>"
  have pb: "0 < arg_chunksize b" by (simp add: b_def)
  have nb: "nat (arg_chunksize b) = Suc 0" by (simp add: b_def)
  have pw: "\<not> 0 < arg_chunksize w" by (simp add: w_def)
  have ri: "read_csv typing_env ids = Inr (table typing_env ids)"
    by (simp add: read_csv_def ids_def)
  have hi: "csv_header ids = [''id'', ''ip'']" by (simp add: ids_def)
  have tb: "truthy (arg_ip_col b)" "arg_ip_col b = Some ''ip''"
    by (simp_all add: b_def ip_args_def truthy_def)
  have tw: "py_or (arg_ip_col w) d = Some ''ip''" for d
    by (simp add: w_def ip_args_def py_or_def)
  have rb: "resolved typing_env b c None = Some ''ip''" for c
    by (simp add: resolved_def b_def ip_args_def truthy_def)
  have "(outcome (process_all typing_env b ids), out_file (process_all typing_env b ids)) =
      final typing_env b (csv_header ids)
        (the (resolved typing_env b (first_batch typing_env (nat (arg_chunksize b)) ids) None))
        (concat (map rows (df_chunks typing_env (nat (arg_chunksize b)) ids)))"
    by (rule chunked_final[OF pb ri]) (simp add: rb truthy_def)
  then have "(outcome (process_all typing_env b ids), out_file (process_all typing_env b ids)) =
      final typing_env b [''id'', ''ip''] ''ip''
        [[CInt 7, CStr ''10.0.0.1''], [CStr ''abc'', CStr ''10.0.0.1'']]"
    by (simp only: nb rb hi chunks_ids option.sel)
  then have c: "out_file (process_all typing_env b ids) =
      Some [Header [''id'', ''ip'', ''geoip''],
            Row [CInt 7, CStr ''10.0.0.1'', CStr []],
            Row [CStr ''abc'', CStr ''10.0.0.1'', CStr []]]"
    unfolding b_def final_typing by simp
  have "(outcome (process_all typing_env w ids), out_file (process_all typing_env w ids)) =
      final typing_env w (columns (table typing_env ids))
        (the (py_or (arg_ip_col w) (autodetect_ip_col typing_env (table typing_env ids))))
        (rows (table typing_env ids))"
    by (rule whole_final[OF pw ri]) (simp add: tw truthy_def)
  then have "(outcome (process_all typing_env w ids), out_file (process_all typing_env w ids)) =
      final typing_env w [''id'', ''ip''] ''ip''
        [[CStr ''007'', CStr ''10.0.0.1''], [CStr ''abc'', CStr ''10.0.0.1'']]"
    by (simp add: tw table_ids)
  then have wh: "out_file (process_all typing_env w ids) =
      Some [Header [''id'', ''ip'', ''geoip''],
            Row [CStr ''007'', CStr ''10.0.0.1'', CStr []],
            Row [CStr ''abc'', CStr ''10.0.0.1'', CStr []]]"
    unfolding w_def final_typing by simp
  have sc: "str_of_cell (CInt 7) \<noteq> str_of_cell (CStr ''007'')"
    by (simp add: str_of_cell_def str_int_def str_nat.simps digit_char_def)
  show ?thesis
    using m c wh sc unfolding z a_def[symmetric] b_def[symmetric] w_def[symmetric] by simp
qed

subsection \<open>The database handles\<close>

lemma track_append:
  "track (xs @ ys) s = (case track xs s of None \<Rightarrow> None | Some s' \<Rightarrow> track ys s')"
  by (induction xs arbitrary: s) (simp_all split: option.splits)

lemma track_keep_append:
  "track xs s = Some s \<Longrightarrow> track ys s = Some s \<Longrightarrow> track (xs @ ys) s = Some s"
  by (simp add: track_append)

lemma lookup_trace:
  "snd (lookup cr ar ip) = Query CityDb ip # (if ar = None then [] else [Query AsnDb ip])"
  by (cases ar) (simp_all add: lookup_def asn_fields_def case_prod_beta split: option.splits)

lemma compute_trace_cases:
  "snd (compute E cr ar v) = [] \<or>
   (\<exists>ip. snd (compute E cr ar v) = Query CityDb ip # (if ar = None then [] else [Query AsnDb ip]))"
proof (cases v)
  case (CStr s)
  show ?thesis
  proof (cases "classify E s = ValidPublic")
    case True
    then have "snd (compute E cr ar v) = snd (lookup cr ar (strip s))"
      using CStr by (simp add: compute_classify)
    then show ?thesis using lookup_trace by metis
  next
    case False
    then show ?thesis using CStr by (simp add: compute_classify)
  qed
qed (simp_all add: compute_def)

lemma compute_track:
  "track (snd (compute E cr ar v)) (True, ar \<noteq> None) = Some (True, ar \<noteq> None)"
  using compute_trace_cases[of E cr ar v] by (cases "ar = None") auto

lemma compute_acquires: "acquisitions h (snd (compute E cr ar v)) = 0"
  using compute_trace_cases[of E cr ar v] by (auto simp: acquisitions_def)

lemma apply_compute_track:
  "track (snd (apply_compute E cr ar vs)) (True, ar \<noteq> None) = Some (True, ar \<noteq> None)"
proof (induction vs)
  case Nil
  show ?case by simp
next
  case (Cons v vs)
  have "snd (apply_compute E cr ar (v # vs)) =
        snd (compute E cr ar v) @ snd (apply_compute E cr ar vs)"
    by (simp add: case_prod_beta)
  then show ?case using compute_track[of E cr ar v] Cons by (simp only: track_keep_append)
qed

lemma acquisitions_append: "acquisitions h (xs @ ys) = acquisitions h xs + acquisitions h ys"
  by (simp add: acquisitions_def)

lemma apply_compute_acquires: "acquisitions h (snd (apply_compute E cr ar vs)) = 0"
proof (induction vs)
  case Nil
  show ?case by (simp add: acquisitions_def)
next
  case (Cons v vs)
  have "snd (apply_compute E cr ar (v # vs)) =
        snd (compute E cr ar v) @ snd (apply_compute E cr ar vs)"
    by (simp add: case_prod_beta)
  then show ?case using compute_acquires[of h E cr ar v] Cons by (simp only: acquisitions_append)
qed

lemma enrich_body_trace:
  "snd (enrich_body E cr ar df c g) = [] \<or>
   snd (enrich_body E cr ar df c g) =
     snd (apply_compute E cr ar (map (\<lambda>r. astype_str (r ! index_of (columns df) c)) (rows df)))"
  by (simp add: enrich_body_def Let_def case_prod_beta split: sum.splits)

lemma enrich_body_track:
  "track (snd (enrich_body E cr ar df c g)) (True, ar \<noteq> None) = Some (True, ar \<noteq> None)"
  using enrich_body_trace[of E cr ar df c g] apply_compute_track[of E cr ar] by auto

lemma enrich_body_acquires: "acquisitions h (snd (enrich_body E cr ar df c g)) = 0"
  using enrich_body_trace[of E cr ar df c g] apply_compute_acquires[of h E cr ar]
  by (auto simp: acquisitions_def)

lemma acquisitions_Nil: "acquisitions h [] = 0"
  by (simp add: acquisitions_def)

lemma acquisitions_Cons:
  "acquisitions h (e # es) = (if e = Acquire h then 1 else 0) + acquisitions h es"
  by (simp add: acquisitions_def)

lemma chunk_loop_Cons_Inr:
  "chunk_step E a item first d fl = Inr (d', fl', ev) \<Longrightarrow>
   chunk_loop E a (item # items) first d fl =
     (chunk_loop E a items False d' fl')
       \<lparr>trace := ev @ trace (chunk_loop E a items False d' fl')\<rparr>"
  by (simp add: Let_def)

lemma chunk_loop_Cons_Inl:
  "chunk_step E a item first d fl = Inl r \<Longrightarrow> chunk_loop E a (item # items) first d fl = r"
  by simp

lemma enrich_dataframe_opened:
  assumes "Reader E cdb = Some cr" "open_asn E adb = Some ar"
  shows "enrich_dataframe E df c cdb adb g =
     (fst (enrich_body E cr ar df c g),
      [Acquire CityDb] @ (if ar \<noteq> None then [Acquire AsnDb] else []) @
      snd (enrich_body E cr ar df c g) @
      [Release CityDb] @ (if ar \<noteq> None then [Release AsnDb] else []))"
  using assms by (simp add: enrich_dataframe_def case_prod_beta)

lemma enrich_dataframe_track:
  assumes "Reader E cdb = None \<or> open_asn E adb \<noteq> None"
  shows "track (snd (enrich_dataframe E df c cdb adb g)) (False, False) = Some (False, False)"
proof (cases "Reader E cdb")
  case None
  then show ?thesis by (simp add: enrich_dataframe_def)
next
  case (Some cr)
  then obtain ar where ar: "open_asn E adb = Some ar" using assms by auto
  have b: "track (snd (enrich_body E cr ar df c g)) (True, ar \<noteq> None) = Some (True, ar \<noteq> None)"
    by (rule enrich_body_track)
  show ?thesis
    unfolding enrich_dataframe_opened[OF Some ar]
    using b by (cases "ar = None") (simp_all add: track_append)
qed

lemma enrich_dataframe_acquires:
  assumes "enrich_dataframe E df c cdb adb g = (Inr out, ev)"
  shows "acquisitions CityDb ev = 1"
proof (cases "Reader E cdb")
  case None
  then show ?thesis using assms by (simp add: enrich_dataframe_def)
next
  case (Some cr)
  show ?thesis
  proof (cases "open_asn E adb")
    case None
    then show ?thesis using assms Some by (simp add: enrich_dataframe_def)
  next
    case ar: (Some ar)
    have "ev = [Acquire CityDb] @ (if ar \<noteq> None then [Acquire AsnDb] else []) @
      snd (enrich_body E cr ar df c g) @
      [Release CityDb] @ (if ar \<noteq> None then [Release AsnDb] else [])"
      using assms enrich_dataframe_opened[OF Some ar, of df c g] by simp
    then show ?thesis
      by (simp add: acquisitions_append acquisitions_Cons acquisitions_Nil
          enrich_body_acquires)
  qed
qed

lemma enrich_dataframe_acquires_le:
  "acquisitions h (snd (enrich_dataframe E df c cdb adb g)) \<le> 1"
proof (cases "Reader E cdb")
  case None
  then show ?thesis by (simp add: enrich_dataframe_def acquisitions_Nil)
next
  case (Some cr)
  show ?thesis
  proof (cases "open_asn E adb")
    case None
    then show ?thesis
      using Some by (cases h) (simp_all add: enrich_dataframe_def acquisitions_Cons acquisitions_Nil)
  next
    case ar: (Some ar)
    show ?thesis
      unfolding enrich_dataframe_opened[OF Some ar]
      by (cases h)
         (simp_all add: acquisitions_append acquisitions_Cons acquisitions_Nil
            enrich_body_acquires)
  qed
qed

lemma chunk_step_trace:
  assumes "opens_cleanly E a"
  shows "(\<forall>r. chunk_step E a item first d fl = Inl r \<longrightarrow> well_bracketed (trace r)) \<and>
         (\<forall>d' fl' ev. chunk_step E a item first d fl = Inr (d', fl', ev) \<longrightarrow> well_bracketed ev)"
proof (cases item)
  case (Inl e)
  then show ?thesis by (simp add: chunk_step_Inl failed_def well_bracketed_def)
next
  case (Inr chunk)
  show ?thesis
  proof (cases "truthy (resolved E a chunk d)")
    case False
    then show ?thesis
      using chunk_step_unresolved[OF False, of first fl] Inr
      by (simp add: failed_def well_bracketed_def)
  next
    case True
    obtain res ev where e:
      "enrich_dataframe E chunk (the (resolved E a chunk d)) (arg_city_db a) (arg_asn_db a)
         (arg_geoip_col a) = (res, ev)"
      by (cases "enrich_dataframe E chunk (the (resolved E a chunk d)) (arg_city_db a)
            (arg_asn_db a) (arg_geoip_col a)")
    have w: "well_bracketed ev"
      using enrich_dataframe_track[of E "arg_city_db a" "arg_asn_db a" chunk
          "the (resolved E a chunk d)" "arg_geoip_col a"] assms e
      by (simp add: well_bracketed_def opens_cleanly_def)
    show ?thesis
    proof (cases res)
      case (Inl err)
      then show ?thesis
        using chunk_step_failed[OF True, of err ev first fl] e Inr w by (simp add: failed_def)
    next
      case out: (Inr enriched)
      then show ?thesis
        using chunk_step_ok[OF True, of enriched ev first fl] e Inr w by simp
    qed
  qed
qed

lemma chunk_loop_track:
  assumes "opens_cleanly E a"
  shows "well_bracketed (trace (chunk_loop E a items first d fl))"
proof (induction items arbitrary: first d fl)
  case Nil
  show ?case by (simp add: well_bracketed_def)
next
  case (Cons item items)
  show ?case
  proof (cases "chunk_step E a item first d fl")
    case (Inl r)
    then show ?thesis
      unfolding chunk_loop_Cons_Inl[OF Inl]
      using chunk_step_trace[OF assms, of item first d fl] by simp
  next
    case (Inr p)
    obtain d' fl' ev where p: "p = (d', fl', ev)" by (cases p)
    have s: "chunk_step E a item first d fl = Inr (d', fl', ev)" using Inr p by simp
    have "track ev (False, False) = Some (False, False)"
      using chunk_step_trace[OF assms, of item first d fl] s by (simp add: well_bracketed_def)
    moreover have "track (trace (chunk_loop E a items False d' fl')) (False, False) =
        Some (False, False)"
      using Cons.IH[of False d' fl'] by (simp add: well_bracketed_def)
    ultimately have "track (ev @ trace (chunk_loop E a items False d' fl')) (False, False) =
        Some (False, False)"
      by (rule track_keep_append)
    then show ?thesis
      unfolding chunk_loop_Cons_Inr[OF s] by (simp add: well_bracketed_def)
  qed
qed

lemma chunk_step_acquires:
  "chunk_step E a item first d fl = Inr (d', fl', ev) \<Longrightarrow> acquisitions CityDb ev = 1"
proof (cases item)
  case (Inl e)
  assume "chunk_step E a item first d fl = Inr (d', fl', ev)"
  then show ?thesis using Inl by (simp add: chunk_step_Inl)
next
  case (Inr chunk)
  assume s: "chunk_step E a item first d fl = Inr (d', fl', ev)"
  show ?thesis
  proof (cases "truthy (resolved E a chunk d)")
    case False
    then show ?thesis using chunk_step_unresolved[OF False, of first fl] Inr s by simp
  next
    case True
    obtain res ev' where e:
      "enrich_dataframe E chunk (the (resolved E a chunk d)) (arg_city_db a) (arg_asn_db a)
         (arg_geoip_col a) = (res, ev')"
      by (cases "enrich_dataframe E chunk (the (resolved E a chunk d)) (arg_city_db a)
            (arg_asn_db a) (arg_geoip_col a)")
    show ?thesis
    proof (cases res)
      case (Inl err)
      then show ?thesis
        using chunk_step_failed[OF True, of err ev' first fl] e Inr s by simp
    next
      case out: (Inr enriched)
      then have "ev = ev'"
        using chunk_step_ok[OF True, of enriched ev' first fl] e Inr s by simp
      then show ?thesis using enrich_dataframe_acquires e out by blast
    qed
  qed
qed

lemma chunk_loop_acquires:
  "outcome (chunk_loop E a items first d fl) = None \<Longrightarrow>
   acquisitions CityDb (trace (chunk_loop E a items first d fl)) = length items"
proof (induction items arbitrary: first d fl)
  case Nil
  show ?case by (simp add: acquisitions_def)
next
  case (Cons item items)
  show ?case
  proof (cases "chunk_step E a item first d fl")
    case (Inl r)
    have "\<exists>e ev. r = failed e fl ev"
    proof (cases item)
      case e: (Inl e)
      then show ?thesis using Inl by (auto simp: chunk_step_Inl)
    next
      case (Inr chunk)
      then show ?thesis
        using Inl
        by (auto simp: chunk_step_def Let_def split: if_splits prod.splits sum.splits)
    qed
    then have "outcome r \<noteq> None" by (auto simp: failed_def)
    then show ?thesis using Cons.prems unfolding chunk_loop_Cons_Inl[OF Inl] by simp
  next
    case (Inr p)
    obtain d' fl' ev where p: "p = (d', fl', ev)" by (cases p)
    have s: "chunk_step E a item first d fl = Inr (d', fl', ev)" using Inr p by simp
    have o: "outcome (chunk_loop E a items False d' fl') = None"
      using Cons.prems unfolding chunk_loop_Cons_Inr[OF s] by simp
    have "acquisitions CityDb ev = 1"
      using s by (rule chunk_step_acquires)
    then show ?thesis
      unfolding chunk_loop_Cons_Inr[OF s] using Cons.IH[OF o] by (simp add: acquisitions_append)
  qed
qed

lemma whole_trace:
  assumes "\<not> 0 < arg_chunksize a"
  shows "trace (process_all E a f) = [] \<or>
         (\<exists>df c. trace (process_all E a f) =
            snd (enrich_dataframe E df c (arg_city_db a) (arg_asn_db a) (arg_geoip_col a)))"
proof (cases "read_csv E f")
  case (Inl e)
  then show ?thesis using process_all_read_error[OF assms Inl] by (simp add: failed_def)
next
  case (Inr df)
  show ?thesis
  proof (cases "truthy (py_or (arg_ip_col a) (autodetect_ip_col E df))")
    case False
    then show ?thesis using process_all_unresolved[OF assms Inr False] by (simp add: failed_def)
  next
    case True
    define c where "c = the (py_or (arg_ip_col a) (autodetect_ip_col E df))"
    obtain res ev where e:
      "enrich_dataframe E df c (arg_city_db a) (arg_asn_db a) (arg_geoip_col a) = (res, ev)"
      by (cases "enrich_dataframe E df c (arg_city_db a) (arg_asn_db a) (arg_geoip_col a)")
    have "trace (process_all E a f) = ev"
    proof (cases res)
      case (Inl err)
      then show ?thesis
        using process_all_failed[OF assms Inr True, of err ev] e by (simp add: c_def failed_def)
    next
      case out: (Inr enriched)
      then show ?thesis
        using process_all_ok[OF assms Inr True, of enriched ev] e by (simp add: c_def)
    qed
    then have "trace (process_all E a f) =
        snd (enrich_dataframe E df c (arg_city_db a) (arg_asn_db a) (arg_geoip_col a))"
      using e by simp
    then show ?thesis by blast
  qed
qed

text \<open>
  C10 (as amended). \<^verbatim>\<open>enrich_dataframe\<close> opens the readers itself, so the handles are
  acquired once per call: at most once in whole-table mode, and once per batch in chunked
  mode, where a run that succeeds acquires the location handle as many times as there are
  batches. When the ownership database is absent or opens, every run, whatever its exit
  (success, a failed read of the table partway, an undetected column, a missing column, a
  name collision), leaves a trace where no handle is acquired twice without a release
  between, every query falls between the acquisition and the release of its handle, and
  every acquired handle is released by the end.
\<close>

theorem handles_scoped_per_batch:
  assumes "opens_cleanly E a"
  shows "well_bracketed (trace (process_all E a f)) \<and>
         (\<not> 0 < arg_chunksize a \<longrightarrow>
            acquisitions CityDb (trace (process_all E a f)) \<le> 1 \<and>
            acquisitions AsnDb (trace (process_all E a f)) \<le> 1) \<and>
         (0 < arg_chunksize a \<and> outcome (process_all E a f) = None \<longrightarrow>
            acquisitions CityDb (trace (process_all E a f)) =
              length (read_csv_chunks E (nat (arg_chunksize a)) f))"
proof -
  have o: "Reader E (arg_city_db a) = None \<or> open_asn E (arg_asn_db a) \<noteq> None"
    using assms by (simp add: opens_cleanly_def)
  have wb: "well_bracketed (trace (process_all E a f))"
  proof (cases "0 < arg_chunksize a")
    case True
    show ?thesis
      unfolding process_all_chunked[OF True] using assms by (rule chunk_loop_track)
  next
    case False
    from whole_trace[OF False, of E f] show ?thesis
    proof
      assume "trace (process_all E a f) = []"
      then show ?thesis by (simp add: well_bracketed_def)
    next
      assume "\<exists>df c. trace (process_all E a f) =
            snd (enrich_dataframe E df c (arg_city_db a) (arg_asn_db a) (arg_geoip_col a))"
      then obtain df c where "trace (process_all E a f) =
            snd (enrich_dataframe E df c (arg_city_db a) (arg_asn_db a) (arg_geoip_col a))"
        by blast
      then show ?thesis
        using enrich_dataframe_track[OF o, of df c "arg_geoip_col a"]
        by (simp add: well_bracketed_def)
    qed
  qed
  have le: "acquisitions h (trace (process_all E a f)) \<le> 1" if w: "\<not> 0 < arg_chunksize a" for h
  proof -
    from whole_trace[OF w, of E f] show ?thesis
    proof
      assume "trace (process_all E a f) = []"
      then show ?thesis by (simp add: acquisitions_Nil)
    next
      assume "\<exists>df c. trace (process_all E a f) =
            snd (enrich_dataframe E df c (arg_city_db a) (arg_asn_db a) (arg_geoip_col a))"
      then obtain df c where "trace (process_all E a f) =
            snd (enrich_dataframe E df c (arg_city_db a) (arg_asn_db a) (arg_geoip_col a))"
        by blast
      then show ?thesis
        using enrich_dataframe_acquires_le[of h E df c "arg_city_db a" "arg_asn_db a"
            "arg_geoip_col a"]
        by simp
    qed
  qed
  have cnt: "acquisitions CityDb (trace (process_all E a f)) =
      length (read_csv_chunks E (nat (arg_chunksize a)) f)"
    if c: "0 < arg_chunksize a" and n: "outcome (process_all E a f) = None"
    using n unfolding process_all_chunked[OF c] by (rule chunk_loop_acquires)
  show ?thesis using wb le cnt by blast
qed

lemma two_batches: "length (read_csv_chunks sample_env 2 (clean four)) = 2"
proof -
  have "read_csv_chunks sample_env 2 (clean four) = map Inr (df_chunks sample_env 2 (clean four))"
    by (rule read_csv_chunks_clean[OF read_samples(2)])
  then show ?thesis
    by (simp add: df_chunks_def batches_def clean_def four_def chunks_of.simps)
qed

lemma two_batches_ok:
  "outcome (process_all sample_env (sample_args\<lparr>arg_chunksize := 2\<rparr>) (clean four)) = None"
proof -
  define a where "a = sample_args\<lparr>arg_chunksize := 2\<rparr>"
  have p: "0 < arg_chunksize a" by (simp add: a_def)
  have r: "read_csv sample_env (clean four) = Inr four" by (rule read_samples)
  have m: "autodetect_ip_col sample_env c = Some ''ip''" if "columns c = [''ip'']" for c
  proof -
    have "name_match ''ip''"
      by (simp add: name_match_def lower_def lower_char_def common_def)
    then show ?thesis using that by (simp add: autodetect_find)
  qed
  have "columns (first_batch sample_env (nat (arg_chunksize a)) (clean four)) = [''ip'']"
    by (simp add: first_batch_def parse_rows_def clean_def four_def)
  then have d: "autodetect_ip_col sample_env
      (first_batch sample_env (nat (arg_chunksize a)) (clean four)) = Some ''ip''"
    by (rule m)
  have rc: "resolved sample_env a (first_batch sample_env (nat (arg_chunksize a)) (clean four))
      None = Some ''ip''"
  proof -
    have "arg_ip_col a = None" by (simp add: a_def sample_args_def)
    then show ?thesis by (simp add: resolved_def d py_or_def truthy_def)
  qed
  have g: "arg_city_db a = arg_city_db sample_args" "arg_asn_db a = arg_asn_db sample_args"
    "arg_geoip_col a = arg_geoip_col sample_args"
    by (simp_all add: a_def)
  have "fst (final sample_env a (csv_header (clean four)) ''ip'' rs) = None" for rs
    using enrich_result_sample[of "''ip''" "columns four"]
    by (simp add: final_def g four_def clean_def)
  then show ?thesis
    using chunked_final[OF p r] unfolding a_def[symmetric]
    by (simp add: rc truthy_def) (metis fst_conv)
qed

theorem handles_scoped_per_batch_witness:
  "opens_cleanly sample_env (sample_args\<lparr>arg_chunksize := 2\<rparr>) \<and>
   well_bracketed (trace (process_all sample_env (sample_args\<lparr>arg_chunksize := 2\<rparr>) (clean four))) \<and>
   acquisitions CityDb
     (trace (process_all sample_env (sample_args\<lparr>arg_chunksize := 2\<rparr>) (clean four))) = 2"
proof -
  define a where "a = sample_args\<lparr>arg_chunksize := 2\<rparr>"
  have oc: "opens_cleanly sample_env a"
    by (simp add: opens_cleanly_def a_def sample_args_def open_asn_def truthy_def)
  have p: "0 < arg_chunksize a" by (simp add: a_def)
  have n: "nat (arg_chunksize a) = 2" by (simp add: a_def)
  have ok: "outcome (process_all sample_env a (clean four)) = None"
    unfolding a_def by (rule two_batches_ok)
  have "acquisitions CityDb (trace (process_all sample_env a (clean four))) =
      length (read_csv_chunks sample_env (nat (arg_chunksize a)) (clean four))"
    using handles_scoped_per_batch [OF oc, of "clean four"] p ok by blast
  then have "acquisitions CityDb (trace (process_all sample_env a (clean four))) = 2"
    by (simp only: n two_batches)
  moreover have "well_bracketed (trace (process_all sample_env a (clean four)))"
    using handles_scoped_per_batch [OF oc, of "clean four"] by blast
  ultimately show ?thesis using oc unfolding a_def by blast
qed

text \<open>
  A table of four rows read in batches of two acquires the location handle twice, not
  once.
\<close>

theorem acquired_per_batch_counterexample:
  "acquisitions CityDb
     (trace (process_all sample_env (sample_args\<lparr>arg_chunksize := 2\<rparr>) (clean four))) \<noteq> 1"
proof -
  define a where "a = sample_args\<lparr>arg_chunksize := 2\<rparr>"
  have p: "0 < arg_chunksize a" by (simp add: a_def)
  have n: "nat (arg_chunksize a) = 2" by (simp add: a_def)
  have ok: "outcome (chunk_loop sample_env a (read_csv_chunks sample_env (nat (arg_chunksize a)) (clean four))
      True None None) = None"
    using two_batches_ok unfolding a_def[symmetric] process_all_chunked[OF p] .
  have "acquisitions CityDb (trace (process_all sample_env a (clean four))) =
      length (read_csv_chunks sample_env (nat (arg_chunksize a)) (clean four))"
    unfolding process_all_chunked[OF p] using ok by (rule chunk_loop_acquires)
  then have "acquisitions CityDb (trace (process_all sample_env a (clean four))) = 2"
    by (simp only: n two_batches)
  then show ?thesis unfolding a_def by simp
qed

end
